theory Spec2Isabelle
  imports Main "HOL-Library.AList"
begin

section \<open>Values, lines and errors\<close>

text \<open>
  The Python source represents a configuration line as a dict with integer keys: key
  \<open>-2\<close> holds the protocol (ACL, a string) or the address family (prefix-list, the
  integer 0 or 1), key \<open>-1\<close> (\<open>LINENUM\<close>) the line number, and the keys
  \<open>0 .. ATTRIBUTES-1\<close> the string attributes. A dict is modelled as an association
  list with distinct keys, \<open>d.get(k)\<close> as \<open>map_of d k\<close>, \<open>d[k]\<close> as a lookup that
  raises \<open>KeyError\<close> when the key is absent, and \<open>d[k] = v\<close> as \<open>AList.update\<close>.
\<close>

datatype error = KeyError | IndexError | ValueError | TypeError | NotImplementedError

datatype val = S string | N int

type_synonym line = "(int \<times> val) list"

text \<open>\<open>paramValueMap\<close>: parameter name to the values it takes (the keys of its Counter).\<close>
type_synonym pvmap = "(val \<times> val list) list"

definition LINENUM :: int where
  "LINENUM = -1"

definition INFINITY :: int where
  "INFINITY = 10000"

definition ACL_LINE_PENALTY :: int where
  "ACL_LINE_PENALTY = 40"

definition ACL_ATTRIBUTES :: nat where
  "ACL_ATTRIBUTES = 20"

definition PrefixList_LINE_PENALTY :: int where
  "PrefixList_LINE_PENALTY = 14"

definition PrefixList_ATTRIBUTES :: nat where
  "PrefixList_ATTRIBUTES = 11"

text \<open>Python truthiness of a value: the empty string and the integer 0 are false.\<close>
fun truthy :: "val \<Rightarrow> bool" where
  "truthy (S s) = (s \<noteq> [])"
| "truthy (N n) = (n \<noteq> 0)"

text \<open>\<open>bool(d.get(k))\<close>: a missing key gives \<open>None\<close>, which is false.\<close>
definition get_truthy :: "line \<Rightarrow> int \<Rightarrow> bool" where
  "get_truthy l k = (case map_of l k of None \<Rightarrow> False | Some v \<Rightarrow> truthy v)"

text \<open>\<open>d[k]\<close> on a dict.\<close>
definition getitem :: "('k \<times> 'v) list \<Rightarrow> 'k \<Rightarrow> error + 'v" where
  "getitem d k = (case map_of d k of None \<Rightarrow> Inl KeyError | Some v \<Rightarrow> Inr v)"

text \<open>Sequencing of computations that may raise.\<close>
definition rbind :: "error + 'a \<Rightarrow> ('a \<Rightarrow> error + 'b) \<Rightarrow> error + 'b" where
  "rbind m f = (case m of Inl e \<Rightarrow> Inl e | Inr v \<Rightarrow> f v)"

section \<open>Line score of the two flavors\<close>

text \<open>
  The body of the loop \<open>for i in range(ATTRIBUTES)\<close> of \<open>LineScore\<close>, the same in
  \<open>PrefixList.py\<close> and \<open>ACL.py\<close>: the amount added to \<open>score\<close> for attribute \<open>i\<close>.
  Inside the first branch both \<open>templateLine[i]\<close> and \<open>deviceLine[i]\<close> exist.
\<close>
definition attributeScore :: "line \<Rightarrow> line \<Rightarrow> pvmap \<Rightarrow> int \<Rightarrow> int" where
  "attributeScore templateLine deviceLine paramValueMap i =
     (if get_truthy templateLine i \<and> get_truthy deviceLine i then
        (case (map_of templateLine i, map_of deviceLine i) of
           (Some tv, Some dv) \<Rightarrow>
             if tv \<noteq> dv then
               (case map_of paramValueMap tv of
                  None \<Rightarrow> 2
                | Some vs \<Rightarrow> if dv \<notin> set vs then 2 else 1)
             else 0
         | _ \<Rightarrow> 0)
      else 2)"

definition PrefixList_LineScore :: "line \<Rightarrow> line \<Rightarrow> pvmap \<Rightarrow> error + int" where
  "PrefixList_LineScore templateLine deviceLine paramValueMap =
     Inr (fold (\<lambda>i score. score + attributeScore templateLine deviceLine paramValueMap (int i))
            [0..<PrefixList_ATTRIBUTES] 0)"

definition ACL_LineScore :: "line \<Rightarrow> line \<Rightarrow> pvmap \<Rightarrow> error + int" where
  "ACL_LineScore templateLine deviceLine paramValueMap =
     rbind (getitem templateLine (-2)) (\<lambda>tp.
     rbind (getitem deviceLine (-2)) (\<lambda>dp.
       if tp \<noteq> dp then Inr INFINITY
       else Inr (fold (\<lambda>i score. score + attributeScore templateLine deviceLine paramValueMap (int i))
                   [0..<ACL_ATTRIBUTES] 0)))"

text \<open>The prefix-list line \<open>10.0.0.0/8\<close>, length range \<open>8-8\<close>, as \<open>PrefixList.Block\<close> builds it.\<close>
definition pl_line_v4 :: "int \<Rightarrow> string \<Rightarrow> line" where
  "pl_line_v4 n octet2 =
     [(-1, N n), (1, S ''8''), (2, S ''8''), (-2, N 0), (0, S ''8''),
      (3, S ''10''), (4, S octet2), (5, S ''0''), (6, S ''0''),
      (7, S ''0''), (8, S ''0''), (9, S ''0''), (10, S ''0'')]"

text \<open>The prefix-list line \<open>10:0:0:0:0:0:0:0/8\<close>, length range \<open>8-8\<close> (family 1).\<close>
definition pl_line_v6 :: "int \<Rightarrow> line" where
  "pl_line_v6 n =
     [(-1, N n), (1, S ''8''), (2, S ''8''), (-2, N 1), (0, S ''8''),
      (3, S ''10''), (4, S ''0''), (5, S ''0''), (6, S ''0''),
      (7, S ''0''), (8, S ''0''), (9, S ''0''), (10, S ''0'')]"

text \<open>An ACL line as \<open>ACL.getLine\<close> builds it, numbered by \<open>ACL.Block\<close>: any source, any
  destination, no ports.\<close>
definition acl_line_any :: "string \<Rightarrow> int \<Rightarrow> line" where
  "acl_line_any protocol n =
     [(-2, S protocol),
      (0, S ''0''), (1, S ''0''), (2, S ''0''), (3, S ''0''),
      (4, S ''255''), (5, S ''255''), (6, S ''255''), (7, S ''255''),
      (8, S ''0''), (9, S ''0''), (10, S ''0''), (11, S ''0''),
      (12, S ''255''), (13, S ''255''), (14, S ''255''), (15, S ''255''),
      (16, S ''-1''), (17, S ''-1''), (18, S ''-1''), (19, S ''-1''),
      (-1, N n)]"

section \<open>Bipartite line matcher\<close>

text \<open>Computations that may raise, over lists: a comprehension and a loop with state.\<close>
fun rmap :: "('a \<Rightarrow> error + 'b) \<Rightarrow> 'a list \<Rightarrow> error + 'b list" where
  "rmap f [] = Inr []"
| "rmap f (x # xs) = rbind (f x) (\<lambda>y. rbind (rmap f xs) (\<lambda>ys. Inr (y # ys)))"

fun rfold :: "('a \<Rightarrow> 's \<Rightarrow> error + 's) \<Rightarrow> 'a list \<Rightarrow> 's \<Rightarrow> error + 's" where
  "rfold f [] s = Inr s"
| "rfold f (x # xs) s = rbind (f x s) (rfold f xs)"

text \<open>
  \<open>hash(frozenset(filter(lambda a: a[0] != LINENUM, l.items())))\<close>. Python's built-in
  \<open>hash\<close> is not part of the repository: it is the parameter \<open>hashf\<close>, a function from
  the set of the items of a line, the line number apart, to hash values. The source only
  compares hash values for equality, so their type is left open; two different sets of
  items may have the same hash value.
\<close>
definition hashKey :: "((int \<times> val) set \<Rightarrow> 'h) \<Rightarrow> line \<Rightarrow> 'h" where
  "hashKey hashf l = hashf (set (filter (\<lambda>a. fst a \<noteq> LINENUM) l))"

type_synonym 'h hashmap = "('h \<times> nat list) list"

text \<open>\<open>ls1HashMap.setdefault(hash(...), list()).append(i)\<close>\<close>
definition hashmap_append :: "'h hashmap \<Rightarrow> 'h \<Rightarrow> nat \<Rightarrow> 'h hashmap" where
  "hashmap_append hm h i =
     AList.update h ((case map_of hm h of None \<Rightarrow> [] | Some matches \<Rightarrow> matches) @ [i]) hm"

definition build_ls1HashMap :: "((int \<times> val) set \<Rightarrow> 'h) \<Rightarrow> line list \<Rightarrow> 'h hashmap" where
  "build_ls1HashMap hashf LS1 =
     fold (\<lambda>(i, l1) hm. hashmap_append hm (hashKey hashf l1) i) (List.enumerate 0 LS1) []"

text \<open>
  The body of \<open>for j, l2 in enumerate(LS2)\<close>; the state is
  \<open>(ls1HashMap, ls1Matched, ls2Matched, matched)\<close>.
\<close>
fun shortcut_step ::
  "((int \<times> val) set \<Rightarrow> 'h) \<Rightarrow> nat \<times> line
     \<Rightarrow> 'h hashmap \<times> nat set \<times> nat set \<times> (nat \<times> nat) list
     \<Rightarrow> 'h hashmap \<times> nat set \<times> nat set \<times> (nat \<times> nat) list" where
  "shortcut_step hashf (j, l2) (hm, ls1Matched, ls2Matched, matched) =
     (case map_of hm (hashKey hashf l2) of
        None \<Rightarrow> (hm, ls1Matched, ls2Matched, matched)
      | Some matches \<Rightarrow>
          if matches = [] then (hm, ls1Matched, ls2Matched, matched)
          else
            (if length matches = 1 then AList.delete (hashKey hashf l2) hm
             else AList.update (hashKey hashf l2) (butlast matches) hm,
             insert (last matches) ls1Matched,
             insert j ls2Matched,
             matched @ [(last matches, j)]))"

definition hashShortcut ::
  "((int \<times> val) set \<Rightarrow> 'h) \<Rightarrow> line list \<Rightarrow> line list
     \<Rightarrow> 'h hashmap \<times> nat set \<times> nat set \<times> (nat \<times> nat) list" where
  "hashShortcut hashf LS1 LS2 =
     fold (shortcut_step hashf) (List.enumerate 0 LS2) (build_ls1HashMap hashf LS1, {}, {}, [])"

text \<open>
  The loops that build \<open>newLS1\<close>/\<open>ls1Map\<close> and \<open>newLS2\<close>/\<open>ls2Map\<close>: the lines whose
  position is not matched, with their positions. \<open>ls1Map\<close> has the keys \<open>0 .. x-1\<close>, so
  it is the list of the positions.
\<close>
definition unmatchedLines :: "line list \<Rightarrow> nat set \<Rightarrow> (nat \<times> line) list" where
  "unmatchedLines LS lsMatched = filter (\<lambda>(i, line). i \<notin> lsMatched) (List.enumerate 0 LS)"

definition similarityMatrix ::
  "(line \<Rightarrow> line \<Rightarrow> pvmap \<Rightarrow> error + int) \<Rightarrow> line list \<Rightarrow> line list \<Rightarrow> pvmap
     \<Rightarrow> error + int list list" where
  "similarityMatrix LineScoreFunc newLS1 newLS2 paramValueMap =
     rmap (\<lambda>tline. rmap (\<lambda>dline. LineScoreFunc tline dline paramValueMap) newLS2) newLS1"

text \<open>
  The body of \<open>for x, y in indicies\<close>; the state is \<open>(matchScore, matched)\<close>.
  \<open>similarityMatrix[x][y]\<close> raises \<open>IndexError\<close> out of range.
\<close>
fun assignment_step ::
  "int list list \<Rightarrow> nat list \<Rightarrow> nat list \<Rightarrow> int \<Rightarrow> nat \<times> nat
     \<Rightarrow> int \<times> (nat \<times> nat) list \<Rightarrow> error + (int \<times> (nat \<times> nat) list)" where
  "assignment_step M ls1Map ls2Map linePenalty (x, y) (matchScore, matched) =
     (if x < length M \<and> y < length (M ! x) then
        (if M ! x ! y \<noteq> INFINITY then
           Inr (matchScore + M ! x ! y, matched @ [(ls1Map ! x, ls2Map ! y)])
         else Inr (matchScore + linePenalty, matched))
      else Inl IndexError)"

text \<open>\<open>indicies\<close>: the solver is called only when the matrix has a row.\<close>
definition solverIndices ::
  "(int list list \<Rightarrow> (nat \<times> nat) list) \<Rightarrow> int list list \<Rightarrow> (nat \<times> nat) list" where
  "solverIndices munkres M = (if length M > 0 then munkres M else [])"

definition flavorLineScore :: "nat \<Rightarrow> line \<Rightarrow> line \<Rightarrow> pvmap \<Rightarrow> error + int" where
  "flavorLineScore noOfAttributes =
     (if noOfAttributes = PrefixList_ATTRIBUTES then PrefixList_LineScore else ACL_LineScore)"

definition flavorLinePenalty :: "nat \<Rightarrow> int" where
  "flavorLinePenalty noOfAttributes =
     (if noOfAttributes = PrefixList_ATTRIBUTES then PrefixList_LINE_PENALTY
      else ACL_LINE_PENALTY)"

text \<open>
  \<open>PrefixList.BipartiteMatching\<close> (\<open>ACL.BipartiteMatching\<close> calls it). The assignment
  solver \<open>Munkres().compute\<close> belongs to a library outside the repository and is the
  parameter \<open>munkres\<close>: it maps the cost matrix to a list of (row, column) pairs. The
  built-in \<open>hash\<close> is the parameter \<open>hashf\<close>.
\<close>
definition BipartiteMatching ::
  "((int \<times> val) set \<Rightarrow> 'h) \<Rightarrow> (int list list \<Rightarrow> (nat \<times> nat) list) \<Rightarrow> line list \<Rightarrow> line list
     \<Rightarrow> pvmap \<Rightarrow> nat \<Rightarrow> error + (int \<times> (nat \<times> nat) list)" where
  "BipartiteMatching hashf munkres LS1 LS2 paramValueMap noOfAttributes =
     (case hashShortcut hashf LS1 LS2 of
        (hm, ls1Matched, ls2Matched, matched) \<Rightarrow>
          let u1 = unmatchedLines LS1 ls1Matched;
              u2 = unmatchedLines LS2 ls2Matched
          in rbind (similarityMatrix (flavorLineScore noOfAttributes)
                      (map snd u1) (map snd u2) paramValueMap) (\<lambda>M.
             rbind (rfold (assignment_step M (map fst u1) (map fst u2)
                             (flavorLinePenalty noOfAttributes))
                      (solverIndices munkres M) (0, matched)) (\<lambda>(matchScore, matched').
               Inr (matchScore
                      + flavorLinePenalty noOfAttributes
                          * abs (int (length LS1) - int (length LS2)),
                    matched'))))"

text \<open>
  Modelled from the spec: the assignment solver (the \<open>munkres\<close> package the source pins
  is not part of the repository). The spec asks for any correct minimum-weight
  assignment of a rectangular cost matrix with deterministic tie-breaking; this one
  enumerates the complete assignments in row order and takes the first of least cost.
\<close>
fun assignments :: "nat list \<Rightarrow> nat list \<Rightarrow> (nat \<times> nat) list list" where
  "assignments [] cs = [[]]"
| "assignments (r # rs) cs =
     (if cs = [] then [[]]
      else concat (map (\<lambda>c. map ((#) (r, c)) (assignments rs (remove1 c cs))) cs)
           @ (if length cs \<le> length rs then assignments rs cs else []))"

definition assignmentCost :: "int list list \<Rightarrow> (nat \<times> nat) list \<Rightarrow> int" where
  "assignmentCost M a = sum_list (map (\<lambda>(r, c). M ! r ! c) a)"

definition munkres_compute :: "int list list \<Rightarrow> (nat \<times> nat) list" where
  "munkres_compute M =
     arg_min_list (assignmentCost M)
       (assignments [0..<length M] [0..<(case M of [] \<Rightarrow> 0 | row # _ \<Rightarrow> length row)])"

text \<open>
  Modelled from the spec: the hash of the items of a line for the closed examples (the
  built-in \<open>hash\<close> of the interpreter is not part of the repository). The spec asks for a
  hash of the (attribute, value) pairs. This one follows the interpreter on the integers,
  where \<open>hash(-1) = hash(-2) = -2\<close>, so that two sets of items that differ only in an
  integer \<open>-1\<close> against \<open>-2\<close> have the same hash value, and it keeps all other sets of
  items apart.
\<close>
definition pyhash :: "(int \<times> val) set \<Rightarrow> (int \<times> val) set" where
  "pyhash items =
     (\<lambda>(k, v). (if k = -1 then -2 else k,
                 case v of N n \<Rightarrow> N (if n = -1 then -2 else n) | S str \<Rightarrow> S str)) ` items"

text \<open>
  The invariant of the hash-shortcut loop over a prefix \<open>ys\<close> of \<open>LS2\<close>: the hash map
  holds, under each hash value, distinct unclaimed positions of \<open>LS1\<close> with that hash
  value, and the pairs matched so far are injective, in range and join lines with equal
  hash values.
\<close>
definition shortcut_inv ::
  "((int \<times> val) set \<Rightarrow> 'h) \<Rightarrow> line list \<Rightarrow> line list
     \<Rightarrow> 'h hashmap \<times> nat set \<times> nat set \<times> (nat \<times> nat) list \<Rightarrow> bool" where
  "shortcut_inv hashf LS1 ys st =
     (case st of (hm, ls1Matched, ls2Matched, matched) \<Rightarrow>
        (\<forall>h matches. map_of hm h = Some matches \<longrightarrow>
           distinct matches \<and>
           (\<forall>i \<in> set matches. i < length LS1 \<and> hashKey hashf (LS1 ! i) = h \<and> i \<notin> ls1Matched)) \<and>
        ls1Matched = fst ` set matched \<and>
        ls2Matched = snd ` set matched \<and>
        distinct (map fst matched) \<and>
        distinct (map snd matched) \<and>
        (\<forall>(i, j) \<in> set matched.
           i < length LS1 \<and> j < length ys \<and> hashKey hashf (LS1 ! i) = hashKey hashf (ys ! j)))"

section \<open>Bookkeeping: \<open>ParametersLinesMap\<close>\<close>

text \<open>
  The class \<open>ParametersLinesMap\<close> of \<open>commonFunctions.py\<close>. \<open>parameters\<close> maps a device
  to its dict from parameter names to values, \<open>lineMapping\<close> a device to the line numbers
  it has; dicts are association lists in insertion order. \<open>predicates\<close> and \<open>groupsList\<close>
  are \<open>None\<close> until \<open>predicateGenerator\<close> has run.
\<close>
record ParametersLinesMap =
  counter :: nat
  parameters :: "(string \<times> (val \<times> val) list) list"
  lineMapping :: "(string \<times> int list) list"
  predicates :: "(string \<times> int list) list option"
  groupsList :: "(int list \<times> string set) list option"

text \<open>\<open>ParametersLinesMap.__init__\<close>\<close>
definition ParametersLinesMap_init ::
  "(string \<times> (val \<times> val) list) list \<Rightarrow> (string \<times> int list) list \<Rightarrow> ParametersLinesMap" where
  "ParametersLinesMap_init ps lm =
     \<lparr>counter = 0, parameters = ps, lineMapping = lm, predicates = None, groupsList = None\<rparr>"

text \<open>
  \<open>parameterDistribution\<close>: each parameter with the values the devices give it. The
  \<open>Counter\<close> built from the list of values is modelled by that list: the callers only ask
  whether a value is one of its keys, that is, a member of the list.
\<close>
definition parameterDistribution :: "ParametersLinesMap \<Rightarrow> pvmap" where
  "parameterDistribution pl =
     fold (\<lambda>(device, d) m.
             fold (\<lambda>(param, v) m.
                     AList.update param
                       ((case map_of m param of None \<Rightarrow> [] | Some vs \<Rightarrow> vs) @ [v]) m) d m)
       (parameters pl) []"

text \<open>\<open>addParameter\<close>: every device but the new one gets the value for the parameter.\<close>
definition addParameter :: "ParametersLinesMap \<Rightarrow> val \<Rightarrow> val \<Rightarrow> string \<Rightarrow> ParametersLinesMap" where
  "addParameter pl param v newDevice =
     pl\<lparr>parameters :=
          map (\<lambda>(device, d). if device \<noteq> newDevice then (device, AList.update param v d)
                              else (device, d))
            (parameters pl)\<rparr>"

text \<open>\<open>remapLineNumbers\<close>: line numbers that are keys of the map are replaced.\<close>
definition remapLineNumbers :: "ParametersLinesMap \<Rightarrow> (val \<times> int) list \<Rightarrow> ParametersLinesMap" where
  "remapLineNumbers pl oldtoNewLineMap =
     pl\<lparr>lineMapping :=
          map (\<lambda>(device, oldList).
                 (device, map (\<lambda>x. case map_of oldtoNewLineMap (N x) of
                                       Some y \<Rightarrow> y | None \<Rightarrow> x) oldList))
            (lineMapping pl)\<rparr>"

text \<open>\<open>str\<close> of a natural number: its decimal digits.\<close>
fun str :: "nat \<Rightarrow> string" where
  "str n = (if n < 10 then [char_of (48 + n)]
            else str (n div 10) @ [char_of (48 + n mod 10)])"

declare str.simps [simp del]

section \<open>Template merger\<close>

text \<open>A block: its action (\<open>action["type"]\<close>) and its lines.\<close>
record Block =
  action :: val
  lines :: "line list"

text \<open>
  The statements \<open>param = "P" + str(counter); counter += 1;
  parameters[device][param] = dLine[attribute]; addParameter(param, value, device)\<close> of
  \<open>MergeLines\<close>. \<open>parameters[device]\<close> raises \<open>KeyError\<close> for an unknown device.
\<close>
definition newParameter ::
  "ParametersLinesMap \<Rightarrow> string \<Rightarrow> val \<Rightarrow> val \<Rightarrow> error + (val \<times> ParametersLinesMap)" where
  "newParameter pl device dv tv =
     (let param = S (''P'' @ str (counter pl)) in
      rbind (getitem (parameters pl) device) (\<lambda>d.
        Inr (param,
             addParameter
               (pl\<lparr>counter := counter pl + 1,
                   parameters := AList.update device (AList.update param dv d) (parameters pl)\<rparr>)
               param tv device)))"

text \<open>\<open>parameters[device][tLine[attribute]] = dLine[attribute]\<close>\<close>
definition setDeviceParameter ::
  "ParametersLinesMap \<Rightarrow> string \<Rightarrow> val \<Rightarrow> val \<Rightarrow> error + ParametersLinesMap" where
  "setDeviceParameter pl device param dv =
     rbind (getitem (parameters pl) device) (\<lambda>d.
       Inr (pl\<lparr>parameters := AList.update device (AList.update param dv d) (parameters pl)\<rparr>))"

text \<open>
  The body of \<open>for attribute in range(noOfAttributes)\<close> in \<open>MergeLines\<close>; the state is
  the bookkeeping and the merged line. \<open>paramValueMap\<close> is the distribution taken when
  \<open>MergeLines\<close> was entered.
\<close>
fun mergeAttribute ::
  "line \<Rightarrow> line \<Rightarrow> pvmap \<Rightarrow> string \<Rightarrow> nat \<Rightarrow> ParametersLinesMap \<times> line
     \<Rightarrow> error + (ParametersLinesMap \<times> line)" where
  "mergeAttribute tLine dLine paramValueMap device attribute (pl, line) =
     (if get_truthy tLine (int attribute) \<and> get_truthy dLine (int attribute) then
        rbind (getitem tLine (int attribute)) (\<lambda>tv.
        rbind (getitem dLine (int attribute)) (\<lambda>dv.
          if tv \<noteq> dv then
            (if map_of paramValueMap tv = None then
               rbind (newParameter pl device dv tv) (\<lambda>(param, pl').
                 Inr (pl', AList.update (int attribute) param line))
             else
               rbind (setDeviceParameter pl device tv dv) (\<lambda>pl'. Inr (pl', line)))
          else Inr (pl, line)))
      else if get_truthy dLine (int attribute) then
        rbind (getitem dLine (int attribute)) (\<lambda>dv.
          rbind (newParameter pl device dv (S '''')) (\<lambda>(param, pl').
            Inr (pl', AList.update (int attribute) param line)))
      else Inr (pl, line))"

text \<open>
  The body of the first loop of \<open>MergeLines\<close>, over the template lines; the state is
  \<open>(oldtoNewLineMap, lineNum, combinedLines)\<close>. \<open>line[LINENUM]\<close> raises \<open>KeyError\<close> on
  a line without line number.
\<close>
fun templateOnly_step ::
  "nat list \<Rightarrow> nat \<times> line \<Rightarrow> (val \<times> int) list \<times> int \<times> line list
     \<Rightarrow> error + ((val \<times> int) list \<times> int \<times> line list)" where
  "templateOnly_step templateLeftout (i, line) (oldtoNewLineMap, lineNum, combinedLines) =
     (if i \<in> set templateLeftout then
        rbind (getitem line LINENUM) (\<lambda>old.
          Inr (AList.update old lineNum oldtoNewLineMap, lineNum + 1,
               combinedLines @ [AList.update LINENUM (N lineNum) line]))
      else Inr (oldtoNewLineMap, lineNum, combinedLines))"

text \<open>
  The body of the second loop, over the device lines; the state is
  \<open>(newDeviceLines, lineNum, combinedLines)\<close>.
\<close>
fun deviceOnly_step ::
  "nat list \<Rightarrow> nat \<times> line \<Rightarrow> int list \<times> int \<times> line list \<Rightarrow> int list \<times> int \<times> line list" where
  "deviceOnly_step deviceLeftout (i, line) (newDeviceLines, lineNum, combinedLines) =
     (if i \<in> set deviceLeftout then
        (newDeviceLines @ [lineNum], lineNum + 1,
         combinedLines @ [AList.update LINENUM (N lineNum) line])
      else (newDeviceLines, lineNum, combinedLines))"

text \<open>
  The body of the third loop, \<open>for i, j in matching\<close>; the state is
  \<open>(parametersLines, oldtoNewLineMap, newDeviceLines, lineNum, combinedLines)\<close>.
  \<open>templateLines[i]\<close> and \<open>deviceLines[j]\<close> raise \<open>IndexError\<close> out of range.
\<close>
fun matched_step ::
  "line list \<Rightarrow> line list \<Rightarrow> pvmap \<Rightarrow> string \<Rightarrow> nat \<Rightarrow> nat \<times> nat
     \<Rightarrow> ParametersLinesMap \<times> (val \<times> int) list \<times> int list \<times> int \<times> line list
     \<Rightarrow> error + (ParametersLinesMap \<times> (val \<times> int) list \<times> int list \<times> int \<times> line list)" where
  "matched_step templateLines deviceLines paramValueMap device noOfAttributes (i, j)
       (pl, oldtoNewLineMap, newDeviceLines, lineNum, combinedLines) =
     (if i < length templateLines then
        (if j < length deviceLines then
           rbind (rfold (mergeAttribute (templateLines ! i) (deviceLines ! j) paramValueMap device)
                    [0..<noOfAttributes] (pl, templateLines ! i)) (\<lambda>(pl', line).
           rbind (getitem line LINENUM) (\<lambda>old.
             Inr (pl', AList.update old lineNum oldtoNewLineMap, newDeviceLines @ [lineNum],
                  lineNum + 1, combinedLines @ [AList.update LINENUM (N lineNum) line])))
         else Inl IndexError)
      else Inl IndexError)"

text \<open>
  \<open>MergeLines\<close>. The objects the source mutates (\<open>parametersLines\<close>, \<open>oldtoNewLineMap\<close>,
  \<open>newDeviceLines\<close>) are returned with the result
  \<open>(combinedLines, lineNum)\<close>.
\<close>
definition MergeLines ::
  "line list \<Rightarrow> line list \<Rightarrow> int \<Rightarrow> ParametersLinesMap \<Rightarrow> (nat \<times> nat) list \<Rightarrow> (val \<times> int) list
     \<Rightarrow> int list \<Rightarrow> string \<Rightarrow> nat
     \<Rightarrow> error + (line list \<times> int \<times> ParametersLinesMap \<times> (val \<times> int) list \<times> int list)" where
  "MergeLines templateLines deviceLines lineNum parametersLines matching oldtoNewLineMap
       newDeviceLines device noOfAttributes =
     (let paramValueMap = parameterDistribution parametersLines;
          templateLeftout = filter (\<lambda>i. i \<notin> set (map fst matching)) [0..<length templateLines];
          deviceLeftout = filter (\<lambda>i. i \<notin> set (map snd matching)) [0..<length deviceLines]
      in rbind (rfold (templateOnly_step templateLeftout) (List.enumerate 0 templateLines)
                  (oldtoNewLineMap, lineNum, [])) (\<lambda>(o2n, lineNum1, combined1).
         case fold (deviceOnly_step deviceLeftout) (List.enumerate 0 deviceLines)
                (newDeviceLines, lineNum1, combined1) of
           (ndl, lineNum2, combined2) \<Rightarrow>
             rbind (rfold (matched_step templateLines deviceLines paramValueMap device noOfAttributes)
                      matching (parametersLines, o2n, ndl, lineNum2, combined2))
               (\<lambda>(pl, o2n', ndl', lineNum3, combined3).
                  Inr (combined3, lineNum3, pl, o2n', ndl'))))"

text \<open>
  The two renumbering loops of \<open>TemplateGenerator\<close> over the lines of a block that is
  aligned with a gap: a block of the device (state \<open>(newDeviceLines, lineNum, lines)\<close>)
  and a block of the template (state \<open>(oldtoNewLineMap, lineNum, lines)\<close>).
\<close>
fun renumberDevice_step ::
  "line \<Rightarrow> int list \<times> int \<times> line list \<Rightarrow> int list \<times> int \<times> line list" where
  "renumberDevice_step line (newDeviceLines, lineNum, ls) =
     (newDeviceLines @ [lineNum], lineNum + 1, ls @ [AList.update LINENUM (N lineNum) line])"

fun renumberTemplate_step ::
  "line \<Rightarrow> (val \<times> int) list \<times> int \<times> line list
     \<Rightarrow> error + ((val \<times> int) list \<times> int \<times> line list)" where
  "renumberTemplate_step line (oldtoNewLineMap, lineNum, ls) =
     rbind (getitem line LINENUM) (\<lambda>old.
       Inr (AList.update old lineNum oldtoNewLineMap, lineNum + 1,
            ls @ [AList.update LINENUM (N lineNum) line]))"

text \<open>
  The body of \<open>for i, v in enumerate(block1Alignment)\<close>. An entry of an alignment is a
  block or the empty list \<open>[]\<close> (a gap), here \<open>None\<close>. The state is
  \<open>(oldtoNewLineMap, newDeviceLines, mergedBlocks, lineNum, j, parametersLines)\<close>.
\<close>
fun TemplateGenerator_step ::
  "(nat \<times> nat) list list \<Rightarrow> string \<Rightarrow> nat \<Rightarrow> Block option \<times> Block option
     \<Rightarrow> (val \<times> int) list \<times> int list \<times> Block list \<times> int \<times> nat \<times> ParametersLinesMap
     \<Rightarrow> error + ((val \<times> int) list \<times> int list \<times> Block list \<times> int \<times> nat \<times> ParametersLinesMap)" where
  "TemplateGenerator_step lineMatchings device noOfAttributes (None, None)
       (o2n, ndl, mergedBlocks, lineNum, j, pl) =
     Inr (o2n, ndl, mergedBlocks, lineNum, j, pl)"
| "TemplateGenerator_step lineMatchings device noOfAttributes (None, Some b2)
       (o2n, ndl, mergedBlocks, lineNum, j, pl) =
     (case fold renumberDevice_step (lines b2) (ndl, lineNum, []) of
        (ndl', lineNum', ls) \<Rightarrow>
          Inr (o2n, ndl', mergedBlocks @ [b2\<lparr>lines := ls\<rparr>], lineNum', j, pl))"
| "TemplateGenerator_step lineMatchings device noOfAttributes (Some v, None)
       (o2n, ndl, mergedBlocks, lineNum, j, pl) =
     rbind (rfold renumberTemplate_step (lines v) (o2n, lineNum, [])) (\<lambda>(o2n', lineNum', ls).
       Inr (o2n', ndl, mergedBlocks @ [v\<lparr>lines := ls\<rparr>], lineNum', j, pl))"
| "TemplateGenerator_step lineMatchings device noOfAttributes (Some v, Some b2)
       (o2n, ndl, mergedBlocks, lineNum, j, pl) =
     (if j < length lineMatchings then
        rbind (MergeLines (lines v) (lines b2) lineNum pl (lineMatchings ! j) o2n ndl device
                 noOfAttributes) (\<lambda>(ls, lineNum', pl', o2n', ndl').
          Inr (o2n', ndl', mergedBlocks @ [v\<lparr>lines := ls\<rparr>], lineNum', j + 1, pl'))
      else Inl IndexError)"

text \<open>
  \<open>TemplateGenerator\<close>; the merged blocks are returned together with the updated
  bookkeeping.
\<close>
definition TemplateGenerator ::
  "Block option list \<Rightarrow> Block option list \<Rightarrow> (nat \<times> nat) list list \<Rightarrow> ParametersLinesMap
     \<Rightarrow> string \<Rightarrow> nat \<Rightarrow> error + (Block list \<times> ParametersLinesMap)" where
  "TemplateGenerator block1Alignment block2Alignment lineMatchings parametersLines device
       noOfAttributes =
     (if length block1Alignment \<noteq> length block2Alignment then Inl ValueError
      else
        rbind (rfold (TemplateGenerator_step lineMatchings device noOfAttributes)
                 (zip block1Alignment block2Alignment) ([], [], [], 0, 0, parametersLines))
          (\<lambda>(o2n, ndl, mergedBlocks, lineNum, j, pl).
             Inr (mergedBlocks,
                  (remapLineNumbers pl o2n)
                    \<lparr>lineMapping := AList.update device ndl
                                      (lineMapping (remapLineNumbers pl o2n))\<rparr>)))"

section \<open>Block aligner\<close>

text \<open>
  A segment of a device (the classes \<open>PrefixList\<close> and \<open>ACL\<close>): its name, the device, the
  blocks and the vendor format.
\<close>
record Segment =
  name :: string
  deviceName :: string
  blocks :: "Block list"
  configurationFormat :: string

text \<open>
  The flavor functions that \<open>main.py\<close> collects in a dict (\<open>prefixListFunctions\<close>,
  \<open>aclFunctions\<close>) and passes on as \<open>**functions\<close>: the entries that the aligner and the
  merger use.
\<close>
record flavor_functions =
  GapPenalty :: "Block \<Rightarrow> int"
  GetLineSequence :: "Block \<Rightarrow> line list"
  MinimumWeightBipartiteMatching ::
    "line list \<Rightarrow> line list \<Rightarrow> pvmap \<Rightarrow> nat \<Rightarrow> error + (int \<times> (nat \<times> nat) list)"
  GenerateTemplate ::
    "Block option list \<Rightarrow> Block option list \<Rightarrow> (nat \<times> nat) list list \<Rightarrow> ParametersLinesMap
       \<Rightarrow> string \<Rightarrow> nat \<Rightarrow> error + (Block list \<times> ParametersLinesMap)"
  NumberOfAttributes :: nat

text \<open>\<open>GapPenalty\<close> and \<open>LineSequence\<close> of the two flavors.\<close>
definition PrefixList_GapPenalty :: "Block \<Rightarrow> int" where
  "PrefixList_GapPenalty block = int (length (lines block)) * PrefixList_LINE_PENALTY"

definition ACL_GapPenalty :: "Block \<Rightarrow> int" where
  "ACL_GapPenalty block = int (length (lines block)) * ACL_LINE_PENALTY"

definition LineSequence :: "Block \<Rightarrow> line list" where
  "LineSequence block = lines block"

text \<open>The class \<open>matrixCell\<close>: a cell of the alignment matrix.\<close>
record matrixCell =
  score :: int
  pointer :: "int list"
  matchedLines :: "(nat \<times> nat) list"

definition matrixCell_init :: matrixCell where
  "matrixCell_init = \<lparr>score = 0, pointer = [-1], matchedLines = []\<rparr>"

text \<open>\<open>MisMatchScore\<close>\<close>
definition MisMatchScore ::
  "Block \<Rightarrow> Block \<Rightarrow> pvmap \<Rightarrow> (Block \<Rightarrow> line list)
     \<Rightarrow> (line list \<Rightarrow> line list \<Rightarrow> pvmap \<Rightarrow> nat \<Rightarrow> error + (int \<times> (nat \<times> nat) list)) \<Rightarrow> nat
     \<Rightarrow> error + (int \<times> (nat \<times> nat) list)" where
  "MisMatchScore block1 block2 paramValueMap GetLineSequenceF MinimumWeightBipartiteMatchingF
       noOfAttributes =
     (if action block1 \<noteq> action block2 then Inr (INFINITY, [])
      else MinimumWeightBipartiteMatchingF (GetLineSequenceF block1) (GetLineSequenceF block2)
             paramValueMap noOfAttributes)"

text \<open>
  The matrix \<open>dp\<close> is a list of rows of cells; \<open>setCell\<close> is an assignment to the
  attributes of the object \<open>dp[i][j]\<close>. All the indices the source uses are within the
  matrix by the bounds of its loops.
\<close>
definition setCell :: "matrixCell list list \<Rightarrow> nat \<Rightarrow> nat \<Rightarrow> matrixCell \<Rightarrow> matrixCell list list" where
  "setCell dp i j c = dp[i := (dp ! i)[j := c]]"

text \<open>The two loops that fill the first column and the first row of the matrix.\<close>
definition initColumn :: "flavor_functions \<Rightarrow> Block list \<Rightarrow> matrixCell list list \<Rightarrow> matrixCell list list" where
  "initColumn fs bs1 dp0 =
     fold (\<lambda>i dp. if i > 0 then
                      setCell dp i 0
                        ((dp ! i ! 0)\<lparr>score := score (dp ! (i - 1) ! 0) + GapPenalty fs (bs1 ! (i - 1)),
                                      pointer := [0]\<rparr>)
                    else dp)
       [0..<length bs1 + 1] dp0"

definition initRow :: "flavor_functions \<Rightarrow> Block list \<Rightarrow> matrixCell list list \<Rightarrow> matrixCell list list" where
  "initRow fs bs2 dp0 =
     fold (\<lambda>i dp. if i > 0 then
                      setCell dp 0 i
                        ((dp ! 0 ! i)\<lparr>score := score (dp ! 0 ! (i - 1)) + GapPenalty fs (bs2 ! (i - 1)),
                                      pointer := [0]\<rparr>)
                    else dp)
       [0..<length bs2 + 1] dp0"

text \<open>
  The body of the nested loops \<open>for i in range(1, m+1): for j in range(1, n+1)\<close> of
  \<open>AlignSequences\<close>: the cell \<open>dp[i][j]\<close> is filled from its three neighbours.
\<close>
definition fillCell ::
  "flavor_functions \<Rightarrow> Block list \<Rightarrow> Block list \<Rightarrow> pvmap \<Rightarrow> nat \<Rightarrow> nat \<Rightarrow> matrixCell list list
     \<Rightarrow> error + matrixCell list list" where
  "fillCell fs bs1 bs2 paramValueMap i j dp =
     rbind (MisMatchScore (bs1 ! (i - 1)) (bs2 ! (j - 1)) paramValueMap (GetLineSequence fs)
              (MinimumWeightBipartiteMatching fs) (NumberOfAttributes fs))
       (\<lambda>(pairScore, matchedPairs).
          let block1Gap = GapPenalty fs (bs1 ! (i - 1));
              block2Gap = GapPenalty fs (bs2 ! (j - 1))
          in if score (dp ! (i - 1) ! (j - 1)) + pairScore \<le> score (dp ! (i - 1) ! j) + block1Gap then
               (if score (dp ! (i - 1) ! (j - 1)) + pairScore \<le> score (dp ! i ! (j - 1)) + block2Gap then
                  Inr (setCell dp i j
                         ((dp ! i ! j)\<lparr>score := score (dp ! (i - 1) ! (j - 1)) + pairScore,
                                       pointer := [1], matchedLines := matchedPairs\<rparr>))
                else
                  Inr (setCell dp i j
                         ((dp ! i ! j)\<lparr>score := score (dp ! i ! (j - 1)) + block2Gap,
                                       pointer := [2]\<rparr>)))
             else
               (if score (dp ! (i - 1) ! j) + block1Gap \<le> score (dp ! i ! (j - 1)) + block2Gap then
                  Inr (setCell dp i j
                         ((dp ! i ! j)\<lparr>score := score (dp ! (i - 1) ! j) + block1Gap,
                                       pointer := [3]\<rparr>))
                else
                  Inr (setCell dp i j
                         ((dp ! i ! j)\<lparr>score := score (dp ! i ! (j - 1)) + block2Gap,
                                       pointer := [2]\<rparr>))))"

text \<open>
  The matrix of \<open>AlignSequences\<close> when the loops that fill it are over: \<open>m+1\<close> rows of
  \<open>n+1\<close> fresh cells, the first column, the first row, then the cells row by row.
\<close>
definition alignmentMatrix ::
  "flavor_functions \<Rightarrow> Block list \<Rightarrow> Block list \<Rightarrow> pvmap \<Rightarrow> error + matrixCell list list" where
  "alignmentMatrix fs bs1 bs2 paramValueMap =
     (let m = length bs1; n = length bs2;
          dp = replicate (m + 1) (replicate (n + 1) matrixCell_init)
      in rfold (\<lambda>i. rfold (\<lambda>j. fillCell fs bs1 bs2 paramValueMap i j) [1..<n + 1]) [1..<m + 1]
           (initRow fs bs2 (initColumn fs bs1 dp)))"

text \<open>
  The first \<open>while\<close> loop of \<open>AlignSequences\<close>, which follows the pointers back from
  \<open>dp[m][n]\<close>; \<open>xpos\<close> and \<open>ypos\<close> are always equal and are the single \<open>pos\<close>. The lists
  are those the source appends to; a gap \<open>[]\<close> is \<open>None\<close>.
\<close>
function traceback ::
  "matrixCell list list \<Rightarrow> Block list \<Rightarrow> Block list \<Rightarrow> nat \<Rightarrow> nat \<Rightarrow> int
     \<Rightarrow> Block option list \<times> Block option list \<times> (nat \<times> nat) list list
     \<Rightarrow> error + (nat \<times> nat \<times> int \<times> Block option list \<times> Block option list \<times> (nat \<times> nat) list list)" where
  "traceback dp bs1 bs2 i j pos (block1Alignment, block2Alignment, lineMatchings) =
     (if i = 0 \<or> j = 0 then Inr (i, j, pos, block1Alignment, block2Alignment, lineMatchings)
      else if pointer (dp ! i ! j) = [1] then
        traceback dp bs1 bs2 (i - 1) (j - 1) (pos - 1)
          (block1Alignment @ [Some (bs1 ! (i - 1))], block2Alignment @ [Some (bs2 ! (j - 1))],
           lineMatchings @ [matchedLines (dp ! i ! j)])
      else if pointer (dp ! i ! j) = [2] then
        traceback dp bs1 bs2 i (j - 1) (pos - 1)
          (block1Alignment @ [None], block2Alignment @ [Some (bs2 ! (j - 1))], lineMatchings)
      else if pointer (dp ! i ! j) = [3] then
        traceback dp bs1 bs2 (i - 1) j (pos - 1)
          (block1Alignment @ [Some (bs1 ! (i - 1))], block2Alignment @ [None], lineMatchings)
      else Inl ValueError)"
  by pat_completeness auto
termination
  by (relation "measure (\<lambda>(dp, bs1, bs2, i, j, pos, acc). i + j)") auto

declare traceback.simps [simp del]

text \<open>
  The loops \<open>while xpos >= 0\<close> and \<open>while ypos >= 0\<close>: the blocks that are left, then
  gaps.
\<close>
function padAlignment :: "Block list \<Rightarrow> nat \<Rightarrow> int \<Rightarrow> Block option list \<Rightarrow> Block option list" where
  "padAlignment bs i pos blockAlignment =
     (if pos \<ge> 0 then
        (if i > 0 then padAlignment bs (i - 1) (pos - 1) (blockAlignment @ [Some (bs ! (i - 1))])
         else padAlignment bs i (pos - 1) (blockAlignment @ [None]))
      else blockAlignment)"
  by pat_completeness auto
termination
  by (relation "measure (\<lambda>(bs, i, pos, acc). nat (pos + 1))") auto

declare padAlignment.simps [simp del]

text \<open>\<open>AlignSequences\<close>\<close>
definition AlignSequences ::
  "Segment \<Rightarrow> Segment \<Rightarrow> ParametersLinesMap \<Rightarrow> flavor_functions
     \<Rightarrow> error + (Block option list \<times> Block option list \<times> (nat \<times> nat) list list)" where
  "AlignSequences bs1 bs2 parametersLines fs =
     (let m = length (blocks bs1); n = length (blocks bs2) in
      rbind (alignmentMatrix fs (blocks bs1) (blocks bs2) (parameterDistribution parametersLines))
        (\<lambda>dp.
      rbind (traceback dp (blocks bs1) (blocks bs2) m n (int (m + n)) ([], [], []))
        (\<lambda>(i, j, pos, block1Alignment, block2Alignment, lineMatchings).
           Inr (rev (padAlignment (blocks bs1) i pos block1Alignment),
                rev (padAlignment (blocks bs2) j pos block2Alignment),
                rev lineMatchings))))"

text \<open>
  The dicts \<open>prefixListFunctions\<close> and \<open>aclFunctions\<close> of \<open>main.py\<close>. The built-in hash
  and the assignment solver are parameters.
\<close>
definition prefixListFunctions ::
  "((int \<times> val) set \<Rightarrow> 'h) \<Rightarrow> (int list list \<Rightarrow> (nat \<times> nat) list) \<Rightarrow> flavor_functions" where
  "prefixListFunctions hashf munkres =
     \<lparr>GapPenalty = PrefixList_GapPenalty, GetLineSequence = LineSequence,
      MinimumWeightBipartiteMatching = BipartiteMatching hashf munkres,
      GenerateTemplate = TemplateGenerator, NumberOfAttributes = PrefixList_ATTRIBUTES\<rparr>"

definition aclFunctions ::
  "((int \<times> val) set \<Rightarrow> 'h) \<Rightarrow> (int list list \<Rightarrow> (nat \<times> nat) list) \<Rightarrow> flavor_functions" where
  "aclFunctions hashf munkres =
     \<lparr>GapPenalty = ACL_GapPenalty, GetLineSequence = LineSequence,
      MinimumWeightBipartiteMatching = BipartiteMatching hashf munkres,
      GenerateTemplate = TemplateGenerator, NumberOfAttributes = ACL_ATTRIBUTES\<rparr>"

text \<open>
  The relation that the fill establishes between the cell \<open>dp[i][j]\<close> and its three
  neighbours; it states the invariant of the nested loops.
\<close>
definition cellFilled ::
  "flavor_functions \<Rightarrow> Block list \<Rightarrow> Block list \<Rightarrow> pvmap \<Rightarrow> matrixCell list list \<Rightarrow> nat \<Rightarrow> nat
     \<Rightarrow> bool" where
  "cellFilled fs bs1 bs2 paramValueMap dp i j =
     (\<exists>pairScore matchedPairs.
        MisMatchScore (bs1 ! (i - 1)) (bs2 ! (j - 1)) paramValueMap (GetLineSequence fs)
          (MinimumWeightBipartiteMatching fs) (NumberOfAttributes fs)
          = Inr (pairScore, matchedPairs) \<and>
        (let diag = score (dp ! (i - 1) ! (j - 1)) + pairScore;
             gap1 = score (dp ! (i - 1) ! j) + GapPenalty fs (bs1 ! (i - 1));
             gap2 = score (dp ! i ! (j - 1)) + GapPenalty fs (bs2 ! (j - 1))
         in score (dp ! i ! j) = min diag (min gap1 gap2) \<and>
            pointer (dp ! i ! j)
              = (if diag \<le> gap1 \<and> diag \<le> gap2 then [1] else if gap1 \<le> gap2 then [3] else [2]) \<and>
            (diag \<le> gap1 \<and> diag \<le> gap2 \<longrightarrow> matchedLines (dp ! i ! j) = matchedPairs)))"

section \<open>Properties of the line score\<close>

lemma attributeScore_bounds:
  "0 \<le> attributeScore t d pvm i \<and> attributeScore t d pvm i \<le> 2"
  by (simp add: attributeScore_def split: option.splits)

lemma fold_attributeScore_bounds:
  "fold (\<lambda>i score. score + attributeScore t d pvm (int i)) ks s0 \<ge> s0 \<and>
   fold (\<lambda>i score. score + attributeScore t d pvm (int i)) ks s0 \<le> s0 + 2 * int (length ks)"
proof (induction ks arbitrary: s0)
  case Nil
  then show ?case by simp
next
  case (Cons k ks)
  have b: "0 \<le> attributeScore t d pvm (int k) \<and> attributeScore t d pvm (int k) \<le> 2"
    by (rule attributeScore_bounds)
  from Cons.IH [of "s0 + attributeScore t d pvm (int k)"] b show ?case
    by auto
qed

lemma ACL_LineScore_protocol_guard:
  "map_of a (-2) = Some p \<Longrightarrow> map_of b (-2) = Some q \<Longrightarrow> p \<noteq> q
     \<Longrightarrow> ACL_LineScore a b pvm = Inr INFINITY"
  by (simp add: ACL_LineScore_def rbind_def getitem_def)

lemma attributeScore_ignores_family:
  "attributeScore (AList.update (-2) v a) (AList.update (-2) w b) pvm (int i)
     = attributeScore a b pvm (int i)"
  by (simp add: attributeScore_def get_truthy_def update_conv')

lemma PrefixList_LineScore_ignores_family:
  "PrefixList_LineScore (AList.update (-2) v a) (AList.update (-2) w b) pvm
     = PrefixList_LineScore a b pvm"
  by (simp add: PrefixList_LineScore_def attributeScore_ignores_family)

lemma PrefixList_LineScore_bounds:
  "\<exists>s. PrefixList_LineScore a b pvm = Inr s \<and> 0 \<le> s \<and> s \<le> 22 \<and> s \<noteq> INFINITY"
proof -
  have "0 \<le> fold (\<lambda>i score. score + attributeScore a b pvm (int i)) [0..<PrefixList_ATTRIBUTES] 0 \<and>
        fold (\<lambda>i score. score + attributeScore a b pvm (int i)) [0..<PrefixList_ATTRIBUTES] 0
          \<le> 0 + 2 * int (length [0..<PrefixList_ATTRIBUTES])"
    by (rule fold_attributeScore_bounds)
  then show ?thesis
    by (simp add: PrefixList_LineScore_def PrefixList_ATTRIBUTES_def INFINITY_def)
qed

text \<open>
  C1. The claim asks both flavors to return \<open>INFINITY\<close> when the identity tags (key
  \<open>-2\<close>) of the two lines differ. \<open>ACL.LineScore\<close> does: the lines of protocol TCP and UDP
  score \<open>INFINITY\<close>. \<open>PrefixList.LineScore\<close> does not compare the address families: the
  IPv4 line \<open>10.0.0.0/8\<close> (family 0) and the IPv6 line \<open>10:0:0:0:0:0:0:0/8\<close> (family 1),
  whose attributes \<open>0 .. 10\<close> are equal, score 0 and not \<open>INFINITY\<close>.
\<close>
theorem C1_prefix_family_not_compared:
  "map_of (pl_line_v4 0 ''0'') (-2) = Some (N 0) \<and>
   map_of (pl_line_v6 0) (-2) = Some (N 1) \<and>
   PrefixList_LineScore (pl_line_v4 0 ''0'') (pl_line_v6 0) [] = Inr 0 \<and>
   PrefixList_LineScore (pl_line_v4 0 ''0'') (pl_line_v6 0) [] \<noteq> Inr INFINITY \<and>
   ACL_LineScore (acl_line_any ''TCP'' 0) (acl_line_any ''UDP'' 0) [] = Inr INFINITY"
  by code_simp

section \<open>Properties of the bipartite matcher\<close>

lemma rbind_Inr_iff: "rbind m f = Inr z \<longleftrightarrow> (\<exists>v. m = Inr v \<and> f v = Inr z)"
  by (cases m) (simp_all add: rbind_def)

lemma rmap_list_all2: "rmap f xs = Inr ys \<Longrightarrow> list_all2 (\<lambda>x y. f x = Inr y) xs ys"
proof (induction xs arbitrary: ys)
  case Nil
  then show ?case by simp
next
  case (Cons x xs)
  from Cons.prems obtain y ys' where "f x = Inr y" "rmap f xs = Inr ys'" "ys = y # ys'"
    by (auto simp: rbind_Inr_iff)
  with Cons.IH show ?case by simp
qed

lemma similarityMatrix_shape:
  assumes "similarityMatrix F newLS1 newLS2 pvm = Inr M"
  shows "length M = length newLS1 \<and> (\<forall>x < length M. length (M ! x) = length newLS2)"
proof -
  from assms have a: "list_all2 (\<lambda>t row. rmap (\<lambda>d. F t d pvm) newLS2 = Inr row) newLS1 M"
    unfolding similarityMatrix_def by (rule rmap_list_all2)
  then have len: "length M = length newLS1" by (simp add: list_all2_lengthD)
  have "\<forall>x < length M. length (M ! x) = length newLS2"
  proof (intro allI impI)
    fix x assume "x < length M"
    with a len have "rmap (\<lambda>d. F (newLS1 ! x) d pvm) newLS2 = Inr (M ! x)"
      by (simp add: list_all2_conv_all_nth)
    then have "list_all2 (\<lambda>d c. F (newLS1 ! x) d pvm = Inr c) newLS2 (M ! x)"
      by (rule rmap_list_all2)
    then show "length (M ! x) = length newLS2" by (simp add: list_all2_lengthD)
  qed
  with len show ?thesis by simp
qed

lemma rfold_assignment_step:
  "rfold (assignment_step M l1 l2 pen) idx (s0, m0) = Inr (s, m) \<Longrightarrow>
     s = s0 + sum_list (map (\<lambda>(x, y). M ! x ! y) (filter (\<lambda>(x, y). M ! x ! y \<noteq> INFINITY) idx))
            + pen * int (length (filter (\<lambda>(x, y). M ! x ! y = INFINITY) idx)) \<and>
     m = m0 @ map (\<lambda>(x, y). (l1 ! x, l2 ! y)) (filter (\<lambda>(x, y). M ! x ! y \<noteq> INFINITY) idx) \<and>
     (\<forall>(x, y) \<in> set idx. x < length M \<and> y < length (M ! x))"
proof (induction idx arbitrary: s0 m0)
  case Nil
  then show ?case by simp
next
  case (Cons p idx)
  obtain x y where p: "p = (x, y)" by (cases p)
  from Cons.prems p obtain s1 m1 where
    step: "assignment_step M l1 l2 pen (x, y) (s0, m0) = Inr (s1, m1)" and
    rest: "rfold (assignment_step M l1 l2 pen) idx (s1, m1) = Inr (s, m)"
    by (auto simp: rbind_Inr_iff)
  from step have rng: "x < length M \<and> y < length (M ! x)"
    by (auto split: if_splits)
  note IH = Cons.IH [OF rest]
  show ?case
  proof (cases "M ! x ! y = INFINITY")
    case True
    with step rng have "s1 = s0 + pen" "m1 = m0" by auto
    with IH p True rng show ?thesis by (simp add: algebra_simps)
  next
    case False
    with step rng have "s1 = s0 + M ! x ! y" "m1 = m0 @ [(l1 ! x, l2 ! y)]" by auto
    with IH p False rng show ?thesis by (simp add: algebra_simps)
  qed
qed

text \<open>
  C4. The total cost returned by the bipartite matcher is the sum of the costs of the
  solver's assignments that are kept (the matches of the hash shortcut add nothing),
  plus the line penalty for each solver assignment whose cost is \<open>INFINITY\<close>, plus the
  line penalty times \<open>|len(LS1) - len(LS2)|\<close>; and the returned matching is the matches of
  the hash shortcut followed by exactly the kept assignments, mapped back to positions
  in \<open>LS1\<close> and \<open>LS2\<close>: an assignment of cost \<open>INFINITY\<close> is not in it. Here \<open>M\<close> is
  the cost matrix of the lines the hash shortcut left unmatched; the statement holds for
  every hash function and every solver.
\<close>
theorem C4_bipartite_total_cost:
  assumes "BipartiteMatching hashf munkres LS1 LS2 pvm n = Inr (matchScore, matched)"
  shows "\<exists>hm m1 m2 hmatched M.
      hashShortcut hashf LS1 LS2 = (hm, m1, m2, hmatched) \<and>
      similarityMatrix (flavorLineScore n) (map snd (unmatchedLines LS1 m1))
        (map snd (unmatchedLines LS2 m2)) pvm = Inr M \<and>
      matchScore = sum_list (map (\<lambda>(x, y). M ! x ! y)
                 (filter (\<lambda>(x, y). M ! x ! y \<noteq> INFINITY) (solverIndices munkres M)))
            + flavorLinePenalty n
                * int (length (filter (\<lambda>(x, y). M ! x ! y = INFINITY) (solverIndices munkres M)))
            + flavorLinePenalty n * abs (int (length LS1) - int (length LS2)) \<and>
      matched = hmatched @
         map (\<lambda>(x, y). (map fst (unmatchedLines LS1 m1) ! x, map fst (unmatchedLines LS2 m2) ! y))
           (filter (\<lambda>(x, y). M ! x ! y \<noteq> INFINITY) (solverIndices munkres M))"
proof -
  obtain hm m1 m2 hmatched where hs: "hashShortcut hashf LS1 LS2 = (hm, m1, m2, hmatched)"
    by (cases "hashShortcut hashf LS1 LS2") auto
  from assms hs obtain M s0 where
    sim: "similarityMatrix (flavorLineScore n) (map snd (unmatchedLines LS1 m1))
        (map snd (unmatchedLines LS2 m2)) pvm = Inr M" and
    rf: "rfold (assignment_step M (map fst (unmatchedLines LS1 m1)) (map fst (unmatchedLines LS2 m2))
            (flavorLinePenalty n)) (solverIndices munkres M) (0, hmatched) = Inr (s0, matched)" and
    sc: "matchScore = s0 + flavorLinePenalty n * abs (int (length LS1) - int (length LS2))"
    by (auto simp: BipartiteMatching_def Let_def rbind_Inr_iff)
  from rfold_assignment_step [OF rf] have
    s0: "s0 = 0 + sum_list (map (\<lambda>(x, y). M ! x ! y)
                 (filter (\<lambda>(x, y). M ! x ! y \<noteq> INFINITY) (solverIndices munkres M)))
            + flavorLinePenalty n
                * int (length (filter (\<lambda>(x, y). M ! x ! y = INFINITY) (solverIndices munkres M)))" and
    m: "matched = hmatched @
         map (\<lambda>(x, y). (map fst (unmatchedLines LS1 m1) ! x, map fst (unmatchedLines LS2 m2) ! y))
           (filter (\<lambda>(x, y). M ! x ! y \<noteq> INFINITY) (solverIndices munkres M))"
    by blast+
  from s0 sc have
    "matchScore = sum_list (map (\<lambda>(x, y). M ! x ! y)
                 (filter (\<lambda>(x, y). M ! x ! y \<noteq> INFINITY) (solverIndices munkres M)))
            + flavorLinePenalty n
                * int (length (filter (\<lambda>(x, y). M ! x ! y = INFINITY) (solverIndices munkres M)))
            + flavorLinePenalty n * abs (int (length LS1) - int (length LS2))"
    by simp
  with hs sim m show ?thesis by blast
qed

theorem C4_bipartite_total_cost_witness:
  "BipartiteMatching pyhash munkres_compute [acl_line_any ''TCP'' 0, acl_line_any ''UDP'' 1]
      [acl_line_any ''UDP'' 0, acl_line_any ''ICMP'' 1] [] 20 = Inr (40, [(1, 0)]) \<and>
   (\<exists>hm m1 m2 hmatched M.
      hashShortcut pyhash [acl_line_any ''TCP'' 0, acl_line_any ''UDP'' 1]
        [acl_line_any ''UDP'' 0, acl_line_any ''ICMP'' 1] = (hm, m1, m2, hmatched) \<and>
      similarityMatrix (flavorLineScore 20)
        (map snd (unmatchedLines [acl_line_any ''TCP'' 0, acl_line_any ''UDP'' 1] m1))
        (map snd (unmatchedLines [acl_line_any ''UDP'' 0, acl_line_any ''ICMP'' 1] m2)) [] = Inr M \<and>
      (40::int) = sum_list (map (\<lambda>(x, y). M ! x ! y)
                 (filter (\<lambda>(x, y). M ! x ! y \<noteq> INFINITY) (solverIndices munkres_compute M)))
            + flavorLinePenalty 20
                * int (length (filter (\<lambda>(x, y). M ! x ! y = INFINITY) (solverIndices munkres_compute M)))
            + flavorLinePenalty 20 * abs (int (length [acl_line_any ''TCP'' 0, acl_line_any ''UDP'' 1])
                 - int (length [acl_line_any ''UDP'' 0, acl_line_any ''ICMP'' 1])) \<and>
      [(1::nat, 0::nat)] = hmatched @
         map (\<lambda>(x, y). (map fst (unmatchedLines [acl_line_any ''TCP'' 0, acl_line_any ''UDP'' 1] m1) ! x,
                          map fst (unmatchedLines [acl_line_any ''UDP'' 0, acl_line_any ''ICMP'' 1] m2) ! y))
           (filter (\<lambda>(x, y). M ! x ! y \<noteq> INFINITY) (solverIndices munkres_compute M)))"
proof -
  have h: "BipartiteMatching pyhash munkres_compute [acl_line_any ''TCP'' 0, acl_line_any ''UDP'' 1]
      [acl_line_any ''UDP'' 0, acl_line_any ''ICMP'' 1] [] 20 = Inr (40, [(1, 0)])"
    by code_simp
  from C4_bipartite_total_cost [OF h] h show ?thesis by blast
qed

subsection \<open>The hash shortcut keeps its invariant\<close>

lemma build_ls1HashMap_snoc:
  "build_ls1HashMap hashf (xs @ [x]) = hashmap_append (build_ls1HashMap hashf xs) (hashKey hashf x) (length xs)"
  by (simp add: build_ls1HashMap_def enumerate_append_eq)

lemma map_of_hashmap_append:
  "map_of (hashmap_append hm h i) =
     (map_of hm)(h \<mapsto> (case map_of hm h of None \<Rightarrow> [] | Some matches \<Rightarrow> matches) @ [i])"
  by (simp add: hashmap_append_def update_conv')

lemma build_ls1HashMap_lookup:
  "map_of (build_ls1HashMap hashf LS1) h = Some matches \<Longrightarrow>
     distinct matches \<and> (\<forall>i \<in> set matches. i < length LS1 \<and> hashKey hashf (LS1 ! i) = h)"
proof (induction LS1 arbitrary: matches rule: rev_induct)
  case Nil
  then show ?case by (simp add: build_ls1HashMap_def)
next
  case (snoc x xs)
  show ?case
  proof (cases "h = hashKey hashf x")
    case True
    show ?thesis
    proof (cases "map_of (build_ls1HashMap hashf xs) h")
      case None
      with snoc.prems True have "matches = [length xs]"
        by (simp add: build_ls1HashMap_snoc map_of_hashmap_append)
      with True show ?thesis by simp
    next
      case (Some old)
      with snoc.prems True have m: "matches = old @ [length xs]"
        by (simp add: build_ls1HashMap_snoc map_of_hashmap_append)
      from snoc.IH [OF Some] have
        old: "distinct old" "\<forall>i \<in> set old. i < length xs \<and> hashKey hashf (xs ! i) = h"
        by auto
      from old have "length xs \<notin> set old" by auto
      with old m True show ?thesis by (auto simp: nth_append)
    qed
  next
    case False
    with snoc.prems have "map_of (build_ls1HashMap hashf xs) h = Some matches"
      by (simp add: build_ls1HashMap_snoc map_of_hashmap_append)
    from snoc.IH [OF this] show ?thesis by (auto simp: nth_append)
  qed
qed

lemma shortcut_inv_init: "shortcut_inv hashf LS1 [] (build_ls1HashMap hashf LS1, {}, {}, [])"
  using build_ls1HashMap_lookup [of hashf LS1] by (auto simp: shortcut_inv_def)

lemma shortcut_inv_step:
  assumes "shortcut_inv hashf LS1 ys st"
  shows "shortcut_inv hashf LS1 (ys @ [y]) (shortcut_step hashf (length ys, y) st)"
proof -
  obtain hm m1 m2 matched where st: "st = (hm, m1, m2, matched)" by (cases st) auto
  from assms st have "shortcut_inv hashf LS1 ys (hm, m1, m2, matched)" by simp
  then have inv:
    "(\<forall>h ms. map_of hm h = Some ms \<longrightarrow>
        distinct ms \<and> (\<forall>i \<in> set ms. i < length LS1 \<and> hashKey hashf (LS1 ! i) = h \<and> i \<notin> m1)) \<and>
     m1 = fst ` set matched \<and> m2 = snd ` set matched \<and>
     distinct (map fst matched) \<and> distinct (map snd matched) \<and>
     (\<forall>(i, j) \<in> set matched. i < length LS1 \<and> j < length ys \<and> hashKey hashf (LS1 ! i) = hashKey hashf (ys ! j))"
    unfolding shortcut_inv_def prod.case .
  from inv have hmI: "distinct ms \<and> (\<forall>i \<in> set ms. i < length LS1 \<and> hashKey hashf (LS1 ! i) = h \<and> i \<notin> m1)"
    if "map_of hm h = Some ms" for h ms
    using that by blast
  from inv have m1: "m1 = fst ` set matched" and m2: "m2 = snd ` set matched" and
    d1: "distinct (map fst matched)" and d2: "distinct (map snd matched)" and
    mt: "\<forall>(i, j) \<in> set matched. i < length LS1 \<and> j < length ys \<and> hashKey hashf (LS1 ! i) = hashKey hashf (ys ! j)"
    by blast+
  have mt': "\<forall>(i, j) \<in> set matched.
      i < length LS1 \<and> j < length (ys @ [y]) \<and> hashKey hashf (LS1 ! i) = hashKey hashf ((ys @ [y]) ! j)"
    using mt by (auto simp: nth_append)
  have unchanged: "shortcut_inv hashf LS1 (ys @ [y]) (hm, m1, m2, matched)"
    using hmI m1 m2 d1 d2 mt' by (simp add: shortcut_inv_def)
  show ?thesis
  proof (cases "map_of hm (hashKey hashf y)")
    case None
    with st unchanged show ?thesis by simp
  next
    case (Some ms)
    show ?thesis
    proof (cases "ms = []")
      case True
      with Some st unchanged show ?thesis by simp
    next
      case False
      define i where "i = last ms"
      define hm' where "hm' = (if length ms = 1 then AList.delete (hashKey hashf y) hm
                               else AList.update (hashKey hashf y) (butlast ms) hm)"
      from Some False st have step:
        "shortcut_step hashf (length ys, y) st =
           (hm', insert i m1, insert (length ys) m2, matched @ [(i, length ys)])"
        by (simp add: i_def hm'_def)
      from False have i_in: "i \<in> set ms" by (simp add: i_def)
      from hmI [OF Some] have dms: "distinct ms" and
        msP: "\<forall>k \<in> set ms. k < length LS1 \<and> hashKey hashf (LS1 ! k) = hashKey hashf y \<and> k \<notin> m1"
        by auto
      from msP i_in have iP: "i < length LS1" "hashKey hashf (LS1 ! i) = hashKey hashf y" "i \<notin> m1"
        by auto
      have i_notin_butlast: "i \<notin> set (butlast ms)"
        using dms False unfolding i_def
        by (metis append_butlast_last_id distinct_append distinct.simps(2) disjoint_iff
            list.set_intros(1))
      have hm'I: "distinct ms' \<and>
            (\<forall>k \<in> set ms'. k < length LS1 \<and> hashKey hashf (LS1 ! k) = h \<and> k \<notin> insert i m1)"
        if look: "map_of hm' h = Some ms'" for h ms'
      proof (cases "h = hashKey hashf y")
        case True
        with look have l1: "length ms \<noteq> 1" and eq: "ms' = butlast ms"
          by (auto simp: hm'_def delete_conv' update_conv' split: if_splits)
        have "set (butlast ms) \<subseteq> set ms" by (auto dest: in_set_butlastD)
        with msP dms eq True i_notin_butlast show ?thesis
          by (auto simp: distinct_butlast)
      next
        case False
        with look have "map_of hm h = Some ms'"
          by (auto simp: hm'_def delete_conv' update_conv' split: if_splits)
        from hmI [OF this] False iP show ?thesis by auto
      qed
      have len_notin: "length ys \<notin> snd ` set matched"
        using mt by force
      have "shortcut_inv hashf LS1 (ys @ [y])
              (hm', insert i m1, insert (length ys) m2, matched @ [(i, length ys)])"
        unfolding shortcut_inv_def
        using hm'I m1 m2 d1 d2 mt' iP len_notin
        by (auto simp: nth_append)
      with step show ?thesis by simp
    qed
  qed
qed

lemma hashShortcut_inv: "shortcut_inv hashf LS1 LS2 (hashShortcut hashf LS1 LS2)"
proof -
  have "shortcut_inv hashf LS1 ys (fold (shortcut_step hashf) (List.enumerate 0 ys) (build_ls1HashMap hashf LS1, {}, {}, []))"
    for ys
  proof (induction ys rule: rev_induct)
    case Nil
    show ?case using shortcut_inv_init by simp
  next
    case (snoc y ys)
    then show ?case
      by (simp add: enumerate_append_eq shortcut_inv_step)
  qed
  then show ?thesis by (simp add: hashShortcut_def)
qed

subsection \<open>The returned pairs are a partial injective matching\<close>

lemma unmatchedLines_positions:
  "distinct (map fst (unmatchedLines LS m)) \<and>
   (\<forall>i \<in> set (map fst (unmatchedLines LS m)). i < length LS \<and> i \<notin> m)"
proof -
  have "distinct (map fst (List.enumerate 0 LS))" by (simp add: map_fst_enumerate)
  then have d: "distinct (map fst (unmatchedLines LS m))"
    unfolding unmatchedLines_def by (rule distinct_map_filter)
  have "\<forall>i \<in> set (map fst (unmatchedLines LS m)). i < length LS \<and> i \<notin> m"
    by (auto simp: unmatchedLines_def in_set_enumerate_eq)
  with d show ?thesis by simp
qed

lemma distinct_map_nth:
  assumes "distinct l" "distinct xs" "\<forall>x \<in> set xs. x < length l"
  shows "distinct (map (nth l) xs)"
proof -
  have "inj_on (nth l) (set xs)"
    using assms(1,3) by (auto simp: inj_on_def nth_eq_iff_index_eq)
  with assms(2) show ?thesis by (simp add: distinct_map)
qed

text \<open>
  The pairs returned by the bipartite matcher form a partial injective matching: no
  position of \<open>LS1\<close> and no position of \<open>LS2\<close> occurs twice and every position is in
  range; the pairs of the hash shortcut come first and join lines whose items, the line
  number apart, have the same hash value. The assignment solver is a parameter; it is
  asked to use each row and each column of the cost matrix \<open>M\<close> at most once.
\<close>
lemma BipartiteMatching_injective:
  assumes hs: "hashShortcut hashf LS1 LS2 = (hm, m1, m2, hmatched)"
      and sim: "similarityMatrix (flavorLineScore n) (map snd (unmatchedLines LS1 m1))
                  (map snd (unmatchedLines LS2 m2)) pvm = Inr M"
      and dx: "distinct (map fst (solverIndices munkres M))"
      and dy: "distinct (map snd (solverIndices munkres M))"
      and res: "BipartiteMatching hashf munkres LS1 LS2 pvm n = Inr (matchScore, matched)"
  shows "distinct (map fst matched) \<and> distinct (map snd matched) \<and>
         (\<forall>(i, j) \<in> set matched. i < length LS1 \<and> j < length LS2) \<and>
         (\<exists>rest. matched = hmatched @ rest) \<and>
         (\<forall>(i, j) \<in> set hmatched.
            hashf (set (filter (\<lambda>a. fst a \<noteq> LINENUM) (LS1 ! i)))
              = hashf (set (filter (\<lambda>a. fst a \<noteq> LINENUM) (LS2 ! j))))"
proof -
  define l1 where "l1 = map fst (unmatchedLines LS1 m1)"
  define l2 where "l2 = map fst (unmatchedLines LS2 m2)"
  define idx where "idx = solverIndices munkres M"
  define kept where "kept = filter (\<lambda>(x, y). M ! x ! y \<noteq> INFINITY) idx"
  from hashShortcut_inv [of hashf LS1 LS2] hs
  have "shortcut_inv hashf LS1 LS2 (hm, m1, m2, hmatched)" by simp
  then have inv:
    "(\<forall>h ms. map_of hm h = Some ms \<longrightarrow>
        distinct ms \<and> (\<forall>i \<in> set ms. i < length LS1 \<and> hashKey hashf (LS1 ! i) = h \<and> i \<notin> m1)) \<and>
     m1 = fst ` set hmatched \<and> m2 = snd ` set hmatched \<and>
     distinct (map fst hmatched) \<and> distinct (map snd hmatched) \<and>
     (\<forall>(i, j) \<in> set hmatched. i < length LS1 \<and> j < length LS2 \<and> hashKey hashf (LS1 ! i) = hashKey hashf (LS2 ! j))"
    unfolding shortcut_inv_def prod.case .
  from inv have m1: "m1 = fst ` set hmatched" and m2: "m2 = snd ` set hmatched" and
    d1: "distinct (map fst hmatched)" and d2: "distinct (map snd hmatched)" and
    hmt: "\<forall>(i, j) \<in> set hmatched. i < length LS1 \<and> j < length LS2 \<and> hashKey hashf (LS1 ! i) = hashKey hashf (LS2 ! j)"
    by blast+
  from res hs sim obtain s0 where
    rf: "rfold (assignment_step M l1 l2 (flavorLinePenalty n)) idx (0, hmatched) = Inr (s0, matched)"
    by (auto simp: BipartiteMatching_def Let_def rbind_Inr_iff l1_def l2_def idx_def)
  from rfold_assignment_step [OF rf] have
    meq: "matched = hmatched @ map (\<lambda>(x, y). (l1 ! x, l2 ! y)) kept" and
    rng: "\<forall>(x, y) \<in> set idx. x < length M \<and> y < length (M ! x)"
    by (simp_all add: kept_def)
  from similarityMatrix_shape [OF sim] have
    lenM: "length M = length l1" and lenrow: "\<forall>x < length M. length (M ! x) = length l2"
    by (simp_all add: l1_def l2_def)
  from unmatchedLines_positions [of LS1 m1] have
    dl1: "distinct l1" and l1P: "\<forall>i \<in> set l1. i < length LS1 \<and> i \<notin> m1"
    by (simp_all add: l1_def)
  from unmatchedLines_positions [of LS2 m2] have
    dl2: "distinct l2" and l2P: "\<forall>i \<in> set l2. i < length LS2 \<and> i \<notin> m2"
    by (simp_all add: l2_def)
  have keptsub: "set kept \<subseteq> set idx" by (auto simp: kept_def)
  have krng: "\<forall>(x, y) \<in> set kept. x < length l1 \<and> y < length l2"
    using rng keptsub lenM lenrow by fastforce
  have dkx: "distinct (map fst kept)"
    using dx unfolding kept_def idx_def by (rule distinct_map_filter)
  have dky: "distinct (map snd kept)"
    using dy unfolding kept_def idx_def by (rule distinct_map_filter)
  have fsts: "map fst (map (\<lambda>(x, y). (l1 ! x, l2 ! y)) kept) = map (nth l1) (map fst kept)"
    by (induction kept) auto
  have snds: "map snd (map (\<lambda>(x, y). (l1 ! x, l2 ! y)) kept) = map (nth l2) (map snd kept)"
    by (induction kept) auto
  have dnew1: "distinct (map (nth l1) (map fst kept))"
    using dl1 dkx krng by (intro distinct_map_nth) auto
  have dnew2: "distinct (map (nth l2) (map snd kept))"
    using dl2 dky krng by (intro distinct_map_nth) auto
  have in1: "set (map (nth l1) (map fst kept)) \<subseteq> set l1"
    using krng by auto
  have in2: "set (map (nth l2) (map snd kept)) \<subseteq> set l2"
    using krng by auto
  have disj1: "set (map fst hmatched) \<inter> set (map (nth l1) (map fst kept)) = {}"
    using in1 l1P m1 by auto
  have disj2: "set (map snd hmatched) \<inter> set (map (nth l2) (map snd kept)) = {}"
    using in2 l2P m2 by auto
  have e1: "map fst matched = map fst hmatched @ map (nth l1) (map fst kept)"
    by (simp only: meq map_append fsts)
  have e2: "map snd matched = map snd hmatched @ map (nth l2) (map snd kept)"
    by (simp only: meq map_append snds)
  have D1: "distinct (map fst matched)"
    unfolding e1 distinct_append using d1 dnew1 disj1 by blast
  have D2: "distinct (map snd matched)"
    unfolding e2 distinct_append using d2 dnew2 disj2 by blast
  have R: "\<forall>(i, j) \<in> set matched. i < length LS1 \<and> j < length LS2"
  proof -
    have "\<forall>(i, j) \<in> set (map (\<lambda>(x, y). (l1 ! x, l2 ! y)) kept). i < length LS1 \<and> j < length LS2"
      using krng l1P l2P by auto
    with hmt show ?thesis by (auto simp: meq)
  qed
  have H: "\<forall>(i, j) \<in> set hmatched.
            hashf (set (filter (\<lambda>a. fst a \<noteq> LINENUM) (LS1 ! i)))
              = hashf (set (filter (\<lambda>a. fst a \<noteq> LINENUM) (LS2 ! j)))"
    using hmt by (auto simp: hashKey_def)
  from D1 D2 R H meq show ?thesis by blast
qed


section \<open>Properties of the template merger\<close>

lemma rfold_append: "rfold f (xs @ ys) s = rbind (rfold f xs s) (rfold f ys)"
  by (induction xs arbitrary: s) (auto simp: rbind_def split: sum.splits)

lemma rfold_snoc_Inr:
  "rfold f (xs @ [x]) s = Inr z \<longleftrightarrow> (\<exists>s'. rfold f xs s = Inr s' \<and> f x s' = Inr z)"
  by (auto simp: rfold_append rbind_Inr_iff rbind_def split: sum.splits)

lemma templateOnly_loop:
  "rfold (templateOnly_step tlo) ps (o2n, ln, c) = Inr (o2n', ln', c') \<Longrightarrow>
   c' = c @ map (\<lambda>m. AList.update LINENUM (N (ln + int m))
                       (map snd (filter (\<lambda>(i, l). i \<in> set tlo) ps) ! m))
              [0..<length (map snd (filter (\<lambda>(i, l). i \<in> set tlo) ps))] \<and>
   ln' = ln + int (length (map snd (filter (\<lambda>(i, l). i \<in> set tlo) ps))) \<and>
   o2n' = fold (\<lambda>m. AList.update
                       (the (map_of (map snd (filter (\<lambda>(i, l). i \<in> set tlo) ps) ! m) LINENUM))
                       (ln + int m))
            [0..<length (map snd (filter (\<lambda>(i, l). i \<in> set tlo) ps))] o2n"
proof (induction ps arbitrary: o2n' ln' c' rule: rev_induct)
  case Nil
  then show ?case by simp
next
  case (snoc p ps)
  obtain i l where p: "p = (i, l)" by (cases p)
  define kept where "kept = map snd (filter (\<lambda>(i, l). i \<in> set tlo) ps)"
  from snoc.prems obtain o1 l1 c1 where
    pre: "rfold (templateOnly_step tlo) ps (o2n, ln, c) = Inr (o1, l1, c1)" and
    step: "templateOnly_step tlo (i, l) (o1, l1, c1) = Inr (o2n', ln', c')"
    unfolding p rfold_snoc_Inr by auto
  note IH = snoc.IH [OF pre, folded kept_def]
  show ?case
  proof (cases "i \<in> set tlo")
    case False
    with step have "o2n' = o1" "ln' = l1" "c' = c1" by auto
    moreover have "map snd (filter (\<lambda>(i, l). i \<in> set tlo) (ps @ [p])) = kept"
      using False p by (simp add: kept_def)
    ultimately show ?thesis using IH by simp
  next
    case True
    with step obtain old where old: "map_of l LINENUM = Some old" and
      r: "o2n' = AList.update old l1 o1" "ln' = l1 + 1"
         "c' = c1 @ [AList.update LINENUM (N l1) l]"
      by (auto simp: rbind_Inr_iff getitem_def split: option.splits)
    have k: "map snd (filter (\<lambda>(i, l). i \<in> set tlo) (ps @ [p])) = kept @ [l]"
      using True p by (simp add: kept_def)
    have e1: "map (\<lambda>m. AList.update LINENUM (N (ln + int m)) ((kept @ [l]) ! m)) [0..<length kept]
                = map (\<lambda>m. AList.update LINENUM (N (ln + int m)) (kept ! m)) [0..<length kept]"
      by (simp add: nth_append)
    have e2: "fold (\<lambda>m. AList.update (the (map_of ((kept @ [l]) ! m) LINENUM)) (ln + int m))
                 [0..<length kept] o2n
                = fold (\<lambda>m. AList.update (the (map_of (kept ! m) LINENUM)) (ln + int m))
                    [0..<length kept] o2n"
      by (rule fold_cong) (simp_all add: nth_append)
    show ?thesis
      unfolding k using IH r old
      by (simp add: e1 e2)
  qed
qed

lemma deviceOnly_loop:
  "fold (deviceOnly_step dlo) ps (ndl, ln, c) = (ndl', ln', c') \<Longrightarrow>
   c' = c @ map (\<lambda>m. AList.update LINENUM (N (ln + int m))
                       (map snd (filter (\<lambda>(i, l). i \<in> set dlo) ps) ! m))
              [0..<length (map snd (filter (\<lambda>(i, l). i \<in> set dlo) ps))] \<and>
   ln' = ln + int (length (map snd (filter (\<lambda>(i, l). i \<in> set dlo) ps))) \<and>
   ndl' = ndl @ map (\<lambda>m. ln + int m)
                  [0..<length (map snd (filter (\<lambda>(i, l). i \<in> set dlo) ps))]"
proof (induction ps arbitrary: ndl' ln' c' rule: rev_induct)
  case Nil
  then show ?case by simp
next
  case (snoc p ps)
  obtain i l where p: "p = (i, l)" by (cases p)
  define kept where "kept = map snd (filter (\<lambda>(i, l). i \<in> set dlo) ps)"
  obtain n1 l1 c1 where pre: "fold (deviceOnly_step dlo) ps (ndl, ln, c) = (n1, l1, c1)"
    by (cases "fold (deviceOnly_step dlo) ps (ndl, ln, c)") auto
  with snoc.prems p have step: "deviceOnly_step dlo (i, l) (n1, l1, c1) = (ndl', ln', c')"
    by simp
  note IH = snoc.IH [OF pre, folded kept_def]
  show ?case
  proof (cases "i \<in> set dlo")
    case False
    with step have "ndl' = n1" "ln' = l1" "c' = c1" by auto
    moreover have "map snd (filter (\<lambda>(i, l). i \<in> set dlo) (ps @ [p])) = kept"
      using False p by (simp add: kept_def)
    ultimately show ?thesis using IH by simp
  next
    case True
    with step have
      r: "ndl' = n1 @ [l1]" "ln' = l1 + 1" "c' = c1 @ [AList.update LINENUM (N l1) l]"
      by auto
    have k: "map snd (filter (\<lambda>(i, l). i \<in> set dlo) (ps @ [p])) = kept @ [l]"
      using True p by (simp add: kept_def)
    have e1: "map (\<lambda>m. AList.update LINENUM (N (ln + int m)) ((kept @ [l]) ! m)) [0..<length kept]
                = map (\<lambda>m. AList.update LINENUM (N (ln + int m)) (kept ! m)) [0..<length kept]"
      by (simp add: nth_append)
    show ?thesis
      unfolding k using IH r
      by (simp add: e1)
  qed
qed

lemma enumerate_filter_nth:
  "map snd (filter (\<lambda>(i, l). P i) (List.enumerate 0 xs)) = map (nth xs) (filter P [0..<length xs])"
proof (induction xs rule: rev_induct)
  case Nil
  then show ?case by simp
next
  case (snoc x xs)
  have "map (nth (xs @ [x])) (filter P [0..<length xs]) = map (nth xs) (filter P [0..<length xs])"
    by (simp add: nth_append)
  with snoc show ?case
    by (simp add: enumerate_append_eq)
qed

lemma leftout_lines:
  "map snd (filter (\<lambda>(i, l). i \<in> set (filter P [0..<length xs])) (List.enumerate 0 xs))
     = map (nth xs) (filter P [0..<length xs])"
proof -
  have "filter (\<lambda>(i, l). i \<in> set (filter P [0..<length xs])) (List.enumerate 0 xs)
          = filter (\<lambda>(i, l). P i) (List.enumerate 0 xs)"
    by (rule filter_cong) (auto simp: in_set_enumerate_eq)
  then show ?thesis by (simp add: enumerate_filter_nth)
qed

lemma mergeAttribute_other:
  assumes "mergeAttribute tLine dLine pvm device k (pl, line) = Inr (pl', line')"
  shows "(\<forall>a. a \<noteq> int k \<longrightarrow> map_of line' a = map_of line a) \<and> lineMapping pl' = lineMapping pl"
  using assms
  by (auto simp: rbind_Inr_iff newParameter_def setDeviceParameter_def addParameter_def Let_def
        update_conv' split: if_splits)

lemma mergeAttribute_loop_other:
  "rfold (mergeAttribute tLine dLine pvm device) ks (pl, line) = Inr (pl', line') \<Longrightarrow>
   (\<forall>a. a \<notin> int ` set ks \<longrightarrow> map_of line' a = map_of line a) \<and> lineMapping pl' = lineMapping pl"
proof (induction ks arbitrary: pl line)
  case Nil
  then show ?case by simp
next
  case (Cons k ks)
  from Cons.prems obtain pl1 line1 where
    step: "mergeAttribute tLine dLine pvm device k (pl, line) = Inr (pl1, line1)" and
    rest: "rfold (mergeAttribute tLine dLine pvm device) ks (pl1, line1) = Inr (pl', line')"
    by (auto simp: rbind_Inr_iff)
  from mergeAttribute_other [OF step] Cons.IH [OF rest] show ?case by auto
qed

lemma matched_loop:
  "rfold (matched_step T D pvm device n) ms (pl, o2n, ndl, ln, c) = Inr (pl', o2n', ndl', ln', c') \<Longrightarrow>
   \<exists>merged. length merged = length ms \<and>
     c' = c @ map (\<lambda>m. AList.update LINENUM (N (ln + int m)) (merged ! m)) [0..<length ms] \<and>
     ndl' = ndl @ map (\<lambda>m. ln + int m) [0..<length ms] \<and>
     ln' = ln + int (length ms) \<and>
     o2n' = fold (\<lambda>m. AList.update (the (map_of (T ! fst (ms ! m)) LINENUM)) (ln + int m))
              [0..<length ms] o2n \<and>
     lineMapping pl' = lineMapping pl \<and>
     (\<forall>m < length ms. fst (ms ! m) < length T \<and> snd (ms ! m) < length D \<and>
        (\<exists>plm plm'. rfold (mergeAttribute (T ! fst (ms ! m)) (D ! snd (ms ! m)) pvm device) [0..<n]
                         (plm, T ! fst (ms ! m)) = Inr (plm', merged ! m)) \<and>
        (\<forall>a. a < 0 \<or> int n \<le> a \<longrightarrow> map_of (merged ! m) a = map_of (T ! fst (ms ! m)) a))"
proof (induction ms arbitrary: pl' o2n' ndl' ln' c' rule: rev_induct)
  case Nil
  then show ?case by simp
next
  case (snoc p ms)
  obtain i j where p: "p = (i, j)" by (cases p)
  from snoc.prems obtain pl1 o1 n1 l1 c1 where
    pre: "rfold (matched_step T D pvm device n) ms (pl, o2n, ndl, ln, c) = Inr (pl1, o1, n1, l1, c1)" and
    step: "matched_step T D pvm device n (i, j) (pl1, o1, n1, l1, c1) = Inr (pl', o2n', ndl', ln', c')"
    unfolding p rfold_snoc_Inr by auto
  from snoc.IH [OF pre] obtain merged where
    len: "length merged = length ms" and
    c1: "c1 = c @ map (\<lambda>m. AList.update LINENUM (N (ln + int m)) (merged ! m)) [0..<length ms]" and
    n1: "n1 = ndl @ map (\<lambda>m. ln + int m) [0..<length ms]" and
    l1: "l1 = ln + int (length ms)" and
    o1: "o1 = fold (\<lambda>m. AList.update (the (map_of (T ! fst (ms ! m)) LINENUM)) (ln + int m))
              [0..<length ms] o2n" and
    lm1: "lineMapping pl1 = lineMapping pl" and
    rng1: "\<forall>m < length ms. fst (ms ! m) < length T \<and> snd (ms ! m) < length D \<and>
        (\<exists>plm plm'. rfold (mergeAttribute (T ! fst (ms ! m)) (D ! snd (ms ! m)) pvm device) [0..<n]
                         (plm, T ! fst (ms ! m)) = Inr (plm', merged ! m)) \<and>
        (\<forall>a. a < 0 \<or> int n \<le> a \<longrightarrow> map_of (merged ! m) a = map_of (T ! fst (ms ! m)) a)"
    by blast
  from step have ij: "i < length T" "j < length D"
    by (auto split: if_splits)
  with step obtain line old where
    attrs: "rfold (mergeAttribute (T ! i) (D ! j) pvm device) [0..<n] (pl1, T ! i) = Inr (pl', line)" and
    old: "map_of line LINENUM = Some old" and
    r: "o2n' = AList.update old l1 o1" "ndl' = n1 @ [l1]" "ln' = l1 + 1"
       "c' = c1 @ [AList.update LINENUM (N l1) line]"
    by (auto simp: rbind_Inr_iff getitem_def split: option.splits)
  from mergeAttribute_loop_other [OF attrs] have
    same: "\<forall>a. a \<notin> int ` set [0..<n] \<longrightarrow> map_of line a = map_of (T ! i) a" and
    lm: "lineMapping pl' = lineMapping pl1"
    by blast+
  have same': "\<forall>a. a < 0 \<or> int n \<le> a \<longrightarrow> map_of line a = map_of (T ! i) a"
  proof (intro allI impI)
    fix a :: int assume "a < 0 \<or> int n \<le> a"
    then have "a \<notin> int ` set [0..<n]" by auto
    with same show "map_of line a = map_of (T ! i) a" by blast
  qed
  then have "map_of line LINENUM = map_of (T ! i) LINENUM"
    by (simp add: LINENUM_def)
  with old have oldT: "the (map_of (T ! i) LINENUM) = old" by simp
  have e1: "map (\<lambda>m. AList.update LINENUM (N (ln + int m)) ((merged @ [line]) ! m)) [0..<length ms]
              = map (\<lambda>m. AList.update LINENUM (N (ln + int m)) (merged ! m)) [0..<length ms]"
    by (simp add: nth_append len)
  have e2: "fold (\<lambda>m. AList.update (the (map_of (T ! fst ((ms @ [p]) ! m)) LINENUM)) (ln + int m))
               [0..<length ms] o2n
              = fold (\<lambda>m. AList.update (the (map_of (T ! fst (ms ! m)) LINENUM)) (ln + int m))
                  [0..<length ms] o2n"
    by (rule fold_cong) (simp_all add: nth_append)
  have lastm: "(merged @ [line]) ! length ms = line"
    using len by (metis nth_append_length)
  have A: "length (merged @ [line]) = length (ms @ [p])" using len by simp
  have B: "c' = c @ map (\<lambda>m. AList.update LINENUM (N (ln + int m)) ((merged @ [line]) ! m))
                      [0..<length (ms @ [p])]"
    using r c1 l1 by (simp add: e1 lastm)
  have C: "ndl' = ndl @ map (\<lambda>m. ln + int m) [0..<length (ms @ [p])]"
    using r n1 l1 by simp
  have D: "ln' = ln + int (length (ms @ [p]))" using r l1 by simp
  have E: "o2n' = fold (\<lambda>m. AList.update (the (map_of (T ! fst ((ms @ [p]) ! m)) LINENUM)) (ln + int m))
              [0..<length (ms @ [p])] o2n"
    using r o1 l1 oldT by (simp add: p e2 [unfolded p])
  have F: "lineMapping pl' = lineMapping pl" using lm lm1 by simp
  have G: "\<forall>m < length (ms @ [p]). fst ((ms @ [p]) ! m) < length T \<and> snd ((ms @ [p]) ! m) < length D \<and>
        (\<exists>plm plm'. rfold (mergeAttribute (T ! fst ((ms @ [p]) ! m)) (D ! snd ((ms @ [p]) ! m)) pvm device)
                         [0..<n] (plm, T ! fst ((ms @ [p]) ! m)) = Inr (plm', (merged @ [line]) ! m)) \<and>
        (\<forall>a. a < 0 \<or> int n \<le> a \<longrightarrow>
           map_of ((merged @ [line]) ! m) a = map_of (T ! fst ((ms @ [p]) ! m)) a)"
  proof (intro allI impI)
    fix m assume "m < length (ms @ [p])"
    then consider "m < length ms" | "m = length ms" by force
    then show "fst ((ms @ [p]) ! m) < length T \<and> snd ((ms @ [p]) ! m) < length D \<and>
        (\<exists>plm plm'. rfold (mergeAttribute (T ! fst ((ms @ [p]) ! m)) (D ! snd ((ms @ [p]) ! m)) pvm device)
                         [0..<n] (plm, T ! fst ((ms @ [p]) ! m)) = Inr (plm', (merged @ [line]) ! m)) \<and>
        (\<forall>a. a < 0 \<or> int n \<le> a \<longrightarrow>
           map_of ((merged @ [line]) ! m) a = map_of (T ! fst ((ms @ [p]) ! m)) a)"
    proof cases
      case 1
      with rng1 len show ?thesis by (simp add: nth_append)
    next
      case 2
      have "(ms @ [p]) ! m = (i, j)" using 2 p by simp
      moreover have "(merged @ [line]) ! m = line" using 2 lastm by simp
      ultimately show ?thesis using ij same' attrs by auto
    qed
  qed
  from A B C D E F G show ?case by blast
qed

lemma MergeLines_result:
  assumes ml: "MergeLines T D lineNum pl matching o2n ndl device n
                 = Inr (combined, lineNum', pl', o2n', ndl')"
  defines "tlo \<equiv> filter (\<lambda>i. i \<notin> set (map fst matching)) [0..<length T]"
      and "dlo \<equiv> filter (\<lambda>i. i \<notin> set (map snd matching)) [0..<length D]"
  shows "\<exists>merged. length merged = length matching \<and>
     combined =
        map (\<lambda>k. AList.update LINENUM (N (lineNum + int k)) (T ! (tlo ! k))) [0..<length tlo]
      @ map (\<lambda>k. AList.update LINENUM (N (lineNum + int (length tlo + k))) (D ! (dlo ! k)))
          [0..<length dlo]
      @ map (\<lambda>k. AList.update LINENUM (N (lineNum + int (length tlo + length dlo + k))) (merged ! k))
          [0..<length matching] \<and>
     (\<forall>k < length matching.
        fst (matching ! k) < length T \<and> snd (matching ! k) < length D \<and>
        (\<exists>plk plk'. rfold (mergeAttribute (T ! fst (matching ! k)) (D ! snd (matching ! k))
                                (parameterDistribution pl) device) [0..<n]
                         (plk, T ! fst (matching ! k)) = Inr (plk', merged ! k)) \<and>
        (\<forall>a. a < 0 \<or> int n \<le> a \<longrightarrow>
           map_of (merged ! k) a = map_of (T ! fst (matching ! k)) a)) \<and>
     lineNum' = lineNum + int (length tlo + length dlo + length matching) \<and>
     o2n' = fold (\<lambda>k. AList.update (the (map_of (T ! fst (matching ! k)) LINENUM))
                        (lineNum + int (length tlo + length dlo + k))) [0..<length matching]
              (fold (\<lambda>k. AList.update (the (map_of (T ! (tlo ! k)) LINENUM)) (lineNum + int k))
                 [0..<length tlo] o2n) \<and>
     ndl' = ndl @ map (\<lambda>k. lineNum + int (length tlo + k)) [0..<length dlo]
                @ map (\<lambda>k. lineNum + int (length tlo + length dlo + k)) [0..<length matching] \<and>
     lineMapping pl' = lineMapping pl"
proof -
  from ml obtain o1 l1 c1 where
    p1: "rfold (templateOnly_step tlo) (List.enumerate 0 T) (o2n, lineNum, []) = Inr (o1, l1, c1)" and
    rest: "(case fold (deviceOnly_step dlo) (List.enumerate 0 D) (ndl, l1, c1) of
              (ndl, lineNum2, combined2) \<Rightarrow>
                rbind (rfold (matched_step T D (parameterDistribution pl) device n)
                         matching (pl, o1, ndl, lineNum2, combined2))
                  (\<lambda>(pl, o2n', ndl', lineNum3, combined3).
                     Inr (combined3, lineNum3, pl, o2n', ndl')))
            = Inr (combined, lineNum', pl', o2n', ndl')"
    unfolding MergeLines_def Let_def tlo_def dlo_def rbind_Inr_iff
    by (auto simp del: set_map)
  obtain n2 l2 c2 where
    p2: "fold (deviceOnly_step dlo) (List.enumerate 0 D) (ndl, l1, c1) = (n2, l2, c2)"
    by (cases "fold (deviceOnly_step dlo) (List.enumerate 0 D) (ndl, l1, c1)") auto
  from rest have
    p3: "rfold (matched_step T D (parameterDistribution pl) device n) matching (pl, o1, n2, l2, c2)
           = Inr (pl', o2n', ndl', lineNum', combined)"
    unfolding p2 prod.case rbind_Inr_iff by auto
  have k1: "map snd (filter (\<lambda>(i, l). i \<in> set tlo) (List.enumerate 0 T)) = map (nth T) tlo"
    unfolding tlo_def by (rule leftout_lines)
  have k2: "map snd (filter (\<lambda>(i, l). i \<in> set dlo) (List.enumerate 0 D)) = map (nth D) dlo"
    unfolding dlo_def by (rule leftout_lines)
  have m1: "map (\<lambda>m. AList.update LINENUM (N (lineNum + int m)) (map (nth T) tlo ! m)) [0..<length tlo]
          = map (\<lambda>k. AList.update LINENUM (N (lineNum + int k)) (T ! (tlo ! k))) [0..<length tlo]"
    by simp
  have f1: "fold (\<lambda>m. AList.update (the (map_of (map (nth T) tlo ! m) LINENUM)) (lineNum + int m))
              [0..<length tlo] o2n
          = fold (\<lambda>k. AList.update (the (map_of (T ! (tlo ! k)) LINENUM)) (lineNum + int k))
              [0..<length tlo] o2n"
    by (rule fold_cong) simp_all
  from templateOnly_loop [OF p1] have
    c1: "c1 = map (\<lambda>k. AList.update LINENUM (N (lineNum + int k)) (T ! (tlo ! k))) [0..<length tlo]" and
    l1: "l1 = lineNum + int (length tlo)" and
    o1: "o1 = fold (\<lambda>k. AList.update (the (map_of (T ! (tlo ! k)) LINENUM)) (lineNum + int k))
                [0..<length tlo] o2n"
    unfolding k1 by (simp_all add: m1 f1)
  have m2: "map (\<lambda>m. AList.update LINENUM (N (l1 + int m)) (map (nth D) dlo ! m)) [0..<length dlo]
          = map (\<lambda>k. AList.update LINENUM (N (lineNum + int (length tlo + k))) (D ! (dlo ! k)))
              [0..<length dlo]"
    by (simp add: l1 algebra_simps)
  from deviceOnly_loop [OF p2] have
    c2: "c2 = c1 @ map (\<lambda>k. AList.update LINENUM (N (lineNum + int (length tlo + k))) (D ! (dlo ! k)))
                     [0..<length dlo]" and
    l2: "l2 = lineNum + int (length tlo + length dlo)" and
    n2: "n2 = ndl @ map (\<lambda>k. lineNum + int (length tlo + k)) [0..<length dlo]"
    unfolding k2 by (simp_all add: m2 l1 algebra_simps)
  from matched_loop [OF p3] obtain merged where
    len: "length merged = length matching" and
    c3: "combined = c2 @ map (\<lambda>m. AList.update LINENUM (N (l2 + int m)) (merged ! m))
                          [0..<length matching]" and
    n3: "ndl' = n2 @ map (\<lambda>m. l2 + int m) [0..<length matching]" and
    l3: "lineNum' = l2 + int (length matching)" and
    o3: "o2n' = fold (\<lambda>m. AList.update (the (map_of (T ! fst (matching ! m)) LINENUM)) (l2 + int m))
              [0..<length matching] o1" and
    lm: "lineMapping pl' = lineMapping pl" and
    rng: "\<forall>m < length matching. fst (matching ! m) < length T \<and> snd (matching ! m) < length D \<and>
        (\<exists>plm plm'. rfold (mergeAttribute (T ! fst (matching ! m)) (D ! snd (matching ! m))
                                (parameterDistribution pl) device) [0..<n]
                         (plm, T ! fst (matching ! m)) = Inr (plm', merged ! m)) \<and>
        (\<forall>a. a < 0 \<or> int n \<le> a \<longrightarrow>
           map_of (merged ! m) a = map_of (T ! fst (matching ! m)) a)"
    by blast
  have A: "combined =
        map (\<lambda>k. AList.update LINENUM (N (lineNum + int k)) (T ! (tlo ! k))) [0..<length tlo]
      @ map (\<lambda>k. AList.update LINENUM (N (lineNum + int (length tlo + k))) (D ! (dlo ! k)))
          [0..<length dlo]
      @ map (\<lambda>k. AList.update LINENUM (N (lineNum + int (length tlo + length dlo + k))) (merged ! k))
          [0..<length matching]"
    unfolding c3 c2 c1 l2 by (simp add: algebra_simps)
  have B: "lineNum' = lineNum + int (length tlo + length dlo + length matching)"
    unfolding l3 l2 by simp
  have C: "o2n' = fold (\<lambda>k. AList.update (the (map_of (T ! fst (matching ! k)) LINENUM))
                        (lineNum + int (length tlo + length dlo + k))) [0..<length matching]
              (fold (\<lambda>k. AList.update (the (map_of (T ! (tlo ! k)) LINENUM)) (lineNum + int k))
                 [0..<length tlo] o2n)"
    unfolding o3 o1 l2 by (simp add: algebra_simps)
  have D: "ndl' = ndl @ map (\<lambda>k. lineNum + int (length tlo + k)) [0..<length dlo]
                @ map (\<lambda>k. lineNum + int (length tlo + length dlo + k)) [0..<length matching]"
    unfolding n3 n2 l2 by (simp add: algebra_simps)
  from len A rng B C D lm show ?thesis by blast
qed

text \<open>
  C7. \<open>MergeLines\<close> emits first the template lines that are not in the matching, in their
  order, numbered from the running line number \<open>lineNum\<close>, and records their old and new
  numbers in \<open>oldtoNewLineMap\<close> without adding them to \<open>newDeviceLines\<close>; then the device
  lines that are not in the matching, whose numbers are added to \<open>newDeviceLines\<close>; then
  one line for each matched pair, in the order of the matching: the result of the
  attribute loop on the template line and the device line of the pair, which keeps the
  items of the template line outside the attributes \<open>0 .. noOfAttributes-1\<close>, and whose
  number is recorded in \<open>oldtoNewLineMap\<close> and added to \<open>newDeviceLines\<close>. \<open>TemplateGenerator\<close> stores \<open>newDeviceLines\<close> as
  \<open>lineMapping[device]\<close>.
\<close>
theorem C7_MergeLines_output_order:
  assumes ml: "MergeLines T D lineNum pl matching o2n ndl device n
                 = Inr (combined, lineNum', pl', o2n', ndl')"
  defines "tlo \<equiv> filter (\<lambda>i. i \<notin> set (map fst matching)) [0..<length T]"
      and "dlo \<equiv> filter (\<lambda>i. i \<notin> set (map snd matching)) [0..<length D]"
  shows "(\<exists>merged. length merged = length matching \<and>
     combined =
        map (\<lambda>k. AList.update LINENUM (N (lineNum + int k)) (T ! (tlo ! k))) [0..<length tlo]
      @ map (\<lambda>k. AList.update LINENUM (N (lineNum + int (length tlo + k))) (D ! (dlo ! k)))
          [0..<length dlo]
      @ map (\<lambda>k. AList.update LINENUM (N (lineNum + int (length tlo + length dlo + k))) (merged ! k))
          [0..<length matching] \<and>
     (\<forall>k < length matching.
        fst (matching ! k) < length T \<and> snd (matching ! k) < length D \<and>
        (\<exists>plk plk'. rfold (mergeAttribute (T ! fst (matching ! k)) (D ! snd (matching ! k))
                                (parameterDistribution pl) device) [0..<n]
                         (plk, T ! fst (matching ! k)) = Inr (plk', merged ! k)) \<and>
        (\<forall>a. a < 0 \<or> int n \<le> a \<longrightarrow>
           map_of (merged ! k) a = map_of (T ! fst (matching ! k)) a))) \<and>
     lineNum' = lineNum + int (length tlo + length dlo + length matching) \<and>
     o2n' = fold (\<lambda>k. AList.update (the (map_of (T ! fst (matching ! k)) LINENUM))
                        (lineNum + int (length tlo + length dlo + k))) [0..<length matching]
              (fold (\<lambda>k. AList.update (the (map_of (T ! (tlo ! k)) LINENUM)) (lineNum + int k))
                 [0..<length tlo] o2n) \<and>
     ndl' = ndl @ map (\<lambda>k. lineNum + int (length tlo + k)) [0..<length dlo]
                @ map (\<lambda>k. lineNum + int (length tlo + length dlo + k)) [0..<length matching] \<and>
     lineMapping pl' = lineMapping pl \<and>
     (lineNum = 0 \<and> o2n = [] \<and> ndl = [] \<longrightarrow>
        (\<exists>pl2. TemplateGenerator [Some \<lparr>action = a1, lines = T\<rparr>] [Some \<lparr>action = a2, lines = D\<rparr>]
                  [matching] pl device n = Inr ([\<lparr>action = a1, lines = combined\<rparr>], pl2) \<and>
               map_of (lineMapping pl2) device = Some ndl'))"
proof -
  have tg: "lineNum = 0 \<and> o2n = [] \<and> ndl = [] \<longrightarrow>
        (\<exists>pl2. TemplateGenerator [Some \<lparr>action = a1, lines = T\<rparr>] [Some \<lparr>action = a2, lines = D\<rparr>]
                  [matching] pl device n = Inr ([\<lparr>action = a1, lines = combined\<rparr>], pl2) \<and>
               map_of (lineMapping pl2) device = Some ndl')"
  proof (intro impI)
    assume z: "lineNum = 0 \<and> o2n = [] \<and> ndl = []"
    with ml have ml0: "MergeLines T D 0 pl matching [] [] device n
                 = Inr (combined, lineNum', pl', o2n', ndl')" by simp
    show "\<exists>pl2. TemplateGenerator [Some \<lparr>action = a1, lines = T\<rparr>] [Some \<lparr>action = a2, lines = D\<rparr>]
                  [matching] pl device n = Inr ([\<lparr>action = a1, lines = combined\<rparr>], pl2) \<and>
               map_of (lineMapping pl2) device = Some ndl'"
      by (simp add: TemplateGenerator_def rbind_def update_conv' ml0)
  qed
  from MergeLines_result [OF ml] tg show ?thesis
    unfolding tlo_def dlo_def by blast
qed

theorem C7_MergeLines_output_order_witness:
  "MergeLines [pl_line_v4 0 ''0'', pl_line_v4 1 ''5''] [pl_line_v4 0 ''1'', pl_line_v4 1 ''7''] 0
      (ParametersLinesMap_init [(''A'', []), (''B'', [])] [(''A'', [0, 1])]) [(1, 0)] [] [] ''B'' 11
     = Inr ([pl_line_v4 0 ''0'', pl_line_v4 1 ''7'',
             AList.update 4 (S ''P0'') (pl_line_v4 2 ''5'')], 3,
            \<lparr>counter = 1,
               parameters = [(''A'', [(S ''P0'', S ''5'')]), (''B'', [(S ''P0'', S ''1'')])],
               lineMapping = [(''A'', [0, 1])], predicates = None, groupsList = None\<rparr>,
            [(N 0, 0), (N 1, 2)], [1, 2]) \<and>
   (\<exists>pl2. TemplateGenerator
             [Some \<lparr>action = S ''PERMIT'',
                    lines = [pl_line_v4 0 ''0'', pl_line_v4 1 ''5'']\<rparr>]
             [Some \<lparr>action = S ''PERMIT'',
                    lines = [pl_line_v4 0 ''1'', pl_line_v4 1 ''7'']\<rparr>]
             [[(1, 0)]]
             (ParametersLinesMap_init [(''A'', []), (''B'', [])] [(''A'', [0, 1])]) ''B'' 11
           = Inr ([\<lparr>action = S ''PERMIT'',
                     lines = [pl_line_v4 0 ''0'', pl_line_v4 1 ''7'',
                              AList.update 4 (S ''P0'') (pl_line_v4 2 ''5'')]\<rparr>], pl2) \<and>
        map_of (lineMapping pl2) ''B'' = Some [1, 2])"
proof -
  have h: "MergeLines [pl_line_v4 0 ''0'', pl_line_v4 1 ''5''] [pl_line_v4 0 ''1'', pl_line_v4 1 ''7''] 0
      (ParametersLinesMap_init [(''A'', []), (''B'', [])] [(''A'', [0, 1])]) [(1, 0)] [] [] ''B'' 11
     = Inr ([pl_line_v4 0 ''0'', pl_line_v4 1 ''7'',
             AList.update 4 (S ''P0'') (pl_line_v4 2 ''5'')], 3,
            \<lparr>counter = 1,
               parameters = [(''A'', [(S ''P0'', S ''5'')]), (''B'', [(S ''P0'', S ''1'')])],
               lineMapping = [(''A'', [0, 1])], predicates = None, groupsList = None\<rparr>,
            [(N 0, 0), (N 1, 2)], [1, 2])"
    by code_simp
  from C7_MergeLines_output_order [OF h, of "S ''PERMIT''" "S ''PERMIT''"] h show ?thesis
    by blast
qed







section \<open>Properties of the block aligner\<close>

lemma setCell_nth:
  "i < length dp \<Longrightarrow> j < length (dp ! i) \<Longrightarrow>
     setCell dp i j c ! i' ! j' = (if i' = i \<and> j' = j then c else dp ! i' ! j')"
  by (auto simp: setCell_def nth_list_update)

lemma setCell_shape:
  "length (setCell dp i j c) = length dp \<and> (\<forall>k. length (setCell dp i j c ! k) = length (dp ! k))"
  by (cases "i < length dp") (auto simp: setCell_def nth_list_update list_update_beyond)

lemma fold_shape:
  assumes "\<And>x dp. length (f x dp) = length dp \<and> (\<forall>k. length (f x dp ! k) = length (dp ! k))"
  shows "length (fold f xs dp) = length dp \<and> (\<forall>k. length (fold f xs dp ! k) = length (dp ! k))"
proof (induction xs arbitrary: dp)
  case Nil
  then show ?case by simp
next
  case (Cons x xs)
  from Cons.IH [of "f x dp"] assms [of x dp] show ?case by simp
qed

lemma initColumn_shape:
  "length (initColumn fs bs1 dp) = length dp \<and>
   (\<forall>k. length (initColumn fs bs1 dp ! k) = length (dp ! k))"
  unfolding initColumn_def by (rule fold_shape) (simp add: setCell_shape)

lemma initRow_shape:
  "length (initRow fs bs2 dp) = length dp \<and>
   (\<forall>k. length (initRow fs bs2 dp ! k) = length (dp ! k))"
  unfolding initRow_def by (rule fold_shape) (simp add: setCell_shape)

lemma rfold_map: "rfold f (map h xs) s = rfold (\<lambda>x. f (h x)) xs s"
  by (induction xs arbitrary: s) (simp_all add: rbind_def split: sum.splits)

lemma rfold_nested:
  "rfold (\<lambda>i. rfold (\<lambda>j. g i j) js) is s
     = rfold (\<lambda>(i, j). g i j) (concat (map (\<lambda>i. map (Pair i) js) is)) s"
proof (induction "is" arbitrary: s)
  case Nil
  then show ?case by simp
next
  case (Cons i "is")
  have "rfold (\<lambda>(i, j). g i j) (map (Pair i) js) s = rfold (\<lambda>j. g i j) js s"
    by (simp add: rfold_map)
  moreover have "rfold (\<lambda>i. rfold (\<lambda>j. g i j) js) is
                   = rfold (\<lambda>(i, j). g i j) (concat (map (\<lambda>i. map (Pair i) js) is))"
    using Cons.IH by (simp add: fun_eq_iff)
  ultimately show ?case by (simp add: rfold_append)
qed

lemma cells_sorted:
  assumes "sorted_wrt (<) is" "sorted_wrt (<) js"
  shows "sorted_wrt (\<lambda>(i, j) (i', j'). i < i' \<or> i = i' \<and> j < j')
           (concat (map (\<lambda>i. map (Pair (i::nat)) (js::nat list)) is))"
  using assms(1)
proof (induction "is")
  case Nil
  then show ?case by simp
next
  case (Cons i "is")
  have row: "sorted_wrt (\<lambda>(i, j) (i', j'). i < i' \<or> i = i' \<and> j < j') (map (Pair i) js)"
    using assms(2) by (simp add: sorted_wrt_map)
  from Cons.prems have lt: "\<forall>i' \<in> set is. i < i'" and rest: "sorted_wrt (<) is" by simp_all
  from lt have cross: "\<forall>x \<in> set (map (Pair i) js).
      \<forall>y \<in> set (concat (map (\<lambda>i. map (Pair i) js) is)).
        (case x of (i, j) \<Rightarrow> \<lambda>(i', j'). i < i' \<or> i = i' \<and> j < j') y"
    by auto
  from row Cons.IH [OF rest] cross show ?case
    by (simp add: sorted_wrt_append)
qed

lemma cellFilled_cong:
  assumes "dp' ! i ! j = dp ! i ! j" "dp' ! (i - 1) ! (j - 1) = dp ! (i - 1) ! (j - 1)"
    "dp' ! (i - 1) ! j = dp ! (i - 1) ! j" "dp' ! i ! (j - 1) = dp ! i ! (j - 1)"
  shows "cellFilled fs bs1 bs2 pvm dp' i j = cellFilled fs bs1 bs2 pvm dp i j"
  unfolding cellFilled_def assms by (rule refl)

lemma fillCell_result:
  assumes "fillCell fs bs1 bs2 pvm i j dp = Inr dp'"
  shows "\<exists>c. dp' = setCell dp i j c \<and>
     (\<exists>pairScore matchedPairs.
        MisMatchScore (bs1 ! (i - 1)) (bs2 ! (j - 1)) pvm (GetLineSequence fs)
          (MinimumWeightBipartiteMatching fs) (NumberOfAttributes fs)
          = Inr (pairScore, matchedPairs) \<and>
        (let diag = score (dp ! (i - 1) ! (j - 1)) + pairScore;
             gap1 = score (dp ! (i - 1) ! j) + GapPenalty fs (bs1 ! (i - 1));
             gap2 = score (dp ! i ! (j - 1)) + GapPenalty fs (bs2 ! (j - 1))
         in score c = min diag (min gap1 gap2) \<and>
            pointer c
              = (if diag \<le> gap1 \<and> diag \<le> gap2 then [1] else if gap1 \<le> gap2 then [3] else [2]) \<and>
            (diag \<le> gap1 \<and> diag \<le> gap2 \<longrightarrow> matchedLines c = matchedPairs)))"
proof -
  from assms obtain pairScore matchedPairs where
    mm: "MisMatchScore (bs1 ! (i - 1)) (bs2 ! (j - 1)) pvm (GetLineSequence fs)
          (MinimumWeightBipartiteMatching fs) (NumberOfAttributes fs)
          = Inr (pairScore, matchedPairs)"
    by (auto simp: fillCell_def rbind_Inr_iff)
  define diag where "diag = score (dp ! (i - 1) ! (j - 1)) + pairScore"
  define gap1 where "gap1 = score (dp ! (i - 1) ! j) + GapPenalty fs (bs1 ! (i - 1))"
  define gap2 where "gap2 = score (dp ! i ! (j - 1)) + GapPenalty fs (bs2 ! (j - 1))"
  from assms mm have r: "dp' =
      (if diag \<le> gap1 then
         (if diag \<le> gap2 then
            setCell dp i j ((dp ! i ! j)\<lparr>score := diag, pointer := [1], matchedLines := matchedPairs\<rparr>)
          else setCell dp i j ((dp ! i ! j)\<lparr>score := gap2, pointer := [2]\<rparr>))
       else
         (if gap1 \<le> gap2 then setCell dp i j ((dp ! i ! j)\<lparr>score := gap1, pointer := [3]\<rparr>)
          else setCell dp i j ((dp ! i ! j)\<lparr>score := gap2, pointer := [2]\<rparr>)))"
    by (simp add: fillCell_def rbind_def Let_def diag_def gap1_def gap2_def split: if_splits)
  have "\<exists>c. dp' = setCell dp i j c \<and> score c = min diag (min gap1 gap2) \<and>
            pointer c
              = (if diag \<le> gap1 \<and> diag \<le> gap2 then [1] else if gap1 \<le> gap2 then [3] else [2]) \<and>
            (diag \<le> gap1 \<and> diag \<le> gap2 \<longrightarrow> matchedLines c = matchedPairs)"
  proof (cases "diag \<le> gap1")
    case True
    show ?thesis
    proof (cases "diag \<le> gap2")
      case True
      with \<open>diag \<le> gap1\<close> r show ?thesis
        by (intro exI [of _ "(dp ! i ! j)\<lparr>score := diag, pointer := [1], matchedLines := matchedPairs\<rparr>"])
           simp
    next
      case False
      with \<open>diag \<le> gap1\<close> r show ?thesis
        by (intro exI [of _ "(dp ! i ! j)\<lparr>score := gap2, pointer := [2]\<rparr>"]) simp
    qed
  next
    case False
    show ?thesis
    proof (cases "gap1 \<le> gap2")
      case True
      with \<open>\<not> diag \<le> gap1\<close> r show ?thesis
        by (intro exI [of _ "(dp ! i ! j)\<lparr>score := gap1, pointer := [3]\<rparr>"]) simp
    next
      case False
      with \<open>\<not> diag \<le> gap1\<close> r show ?thesis
        by (intro exI [of _ "(dp ! i ! j)\<lparr>score := gap2, pointer := [2]\<rparr>"]) simp
    qed
  qed
  with mm show ?thesis
    unfolding diag_def gap1_def gap2_def Let_def by blast
qed

lemma cells_set: "set (concat (map (\<lambda>i. map (Pair i) js) is)) = set is \<times> set js"
  by auto

lemma fill_cells:
  assumes "rfold (\<lambda>(i, j). fillCell fs bs1 bs2 pvm i j) ps dp0 = Inr dp"
      and "length dp0 = Suc m" "\<forall>k \<le> m. length (dp0 ! k) = Suc n"
      and "sorted_wrt (\<lambda>(i, j) (i', j'). i < i' \<or> i = i' \<and> j < j') ps"
      and "\<forall>(i, j) \<in> set ps. 1 \<le> i \<and> i \<le> m \<and> 1 \<le> j \<and> j \<le> n"
  shows "(\<forall>(i, j) \<in> set ps. cellFilled fs bs1 bs2 pvm dp i j) \<and>
         length dp = Suc m \<and> (\<forall>k \<le> m. length (dp ! k) = Suc n)"
  using assms(1,4,5)
proof (induction ps arbitrary: dp rule: rev_induct)
  case Nil
  with assms(2,3) show ?case by simp
next
  case (snoc p ps)
  obtain i j where p: "p = (i, j)" by (cases p)
  from snoc.prems(1) obtain dp1 where
    pre: "rfold (\<lambda>(i, j). fillCell fs bs1 bs2 pvm i j) ps dp0 = Inr dp1" and
    step: "fillCell fs bs1 bs2 pvm i j dp1 = Inr dp"
    unfolding p rfold_snoc_Inr by auto
  from snoc.prems(2) have
    srt: "sorted_wrt (\<lambda>(i, j) (i', j'). i < i' \<or> i = i' \<and> j < j') ps" and
    before: "\<forall>q \<in> set ps. (case q of (i', j') \<Rightarrow> i' < i \<or> i' = i \<and> j' < j)"
    by (auto simp: sorted_wrt_append p)
  from snoc.prems(3) have
    rng: "\<forall>(i, j) \<in> set ps. 1 \<le> i \<and> i \<le> m \<and> 1 \<le> j \<and> j \<le> n" and
    ij: "1 \<le> i" "i \<le> m" "1 \<le> j" "j \<le> n"
    by (auto simp: p)
  from snoc.IH [OF pre srt rng] have
    IH: "\<forall>(i, j) \<in> set ps. cellFilled fs bs1 bs2 pvm dp1 i j" and
    len1: "length dp1 = Suc m" and row1: "\<forall>k \<le> m. length (dp1 ! k) = Suc n"
    by blast+
  from fillCell_result [OF step] obtain c where
    dp: "dp = setCell dp1 i j c" and
    c: "\<exists>pairScore matchedPairs.
        MisMatchScore (bs1 ! (i - 1)) (bs2 ! (j - 1)) pvm (GetLineSequence fs)
          (MinimumWeightBipartiteMatching fs) (NumberOfAttributes fs)
          = Inr (pairScore, matchedPairs) \<and>
        (let diag = score (dp1 ! (i - 1) ! (j - 1)) + pairScore;
             gap1 = score (dp1 ! (i - 1) ! j) + GapPenalty fs (bs1 ! (i - 1));
             gap2 = score (dp1 ! i ! (j - 1)) + GapPenalty fs (bs2 ! (j - 1))
         in score c = min diag (min gap1 gap2) \<and>
            pointer c
              = (if diag \<le> gap1 \<and> diag \<le> gap2 then [1] else if gap1 \<le> gap2 then [3] else [2]) \<and>
            (diag \<le> gap1 \<and> diag \<le> gap2 \<longrightarrow> matchedLines c = matchedPairs))"
    by blast
  have inr: "i < length dp1" "j < length (dp1 ! i)"
    using ij len1 row1 by simp_all
  have get: "dp ! i' ! j' = (if i' = i \<and> j' = j then c else dp1 ! i' ! j')" for i' j'
    unfolding dp using inr by (rule setCell_nth)
  have new: "cellFilled fs bs1 bs2 pvm dp i j"
  proof -
    have e: "dp ! i ! j = c" "dp ! (i - 1) ! (j - 1) = dp1 ! (i - 1) ! (j - 1)"
      "dp ! (i - 1) ! j = dp1 ! (i - 1) ! j" "dp ! i ! (j - 1) = dp1 ! i ! (j - 1)"
      using ij by (auto simp: get)
    show ?thesis
      unfolding cellFilled_def e using c .
  qed
  have old: "cellFilled fs bs1 bs2 pvm dp i' j'" if q: "(i', j') \<in> set ps" for i' j'
  proof -
    from before q have lt: "i' < i \<or> i' = i \<and> j' < j" by auto
    from rng q have r: "1 \<le> i'" "1 \<le> j'" by auto
    have e: "dp ! i' ! j' = dp1 ! i' ! j'" "dp ! (i' - 1) ! (j' - 1) = dp1 ! (i' - 1) ! (j' - 1)"
      "dp ! (i' - 1) ! j' = dp1 ! (i' - 1) ! j'" "dp ! i' ! (j' - 1) = dp1 ! i' ! (j' - 1)"
      using lt r by (auto simp: get)
    from IH q have "cellFilled fs bs1 bs2 pvm dp1 i' j'" by auto
    with cellFilled_cong [OF e, of fs bs1 bs2 pvm] show ?thesis by simp
  qed
  have shape: "length dp = Suc m \<and> (\<forall>k \<le> m. length (dp ! k) = Suc n)"
    using setCell_shape [of dp1 i j c] len1 row1 by (simp add: dp)
  from new old shape show ?case by (auto simp: p)
qed

text \<open>
  C5. When the matrix of the block aligner has been filled, every cell \<open>dp[i][j]\<close> with
  \<open>i, j \<ge> 1\<close> holds the least of the three options: the diagonal \<open>dp[i-1][j-1]\<close> plus the
  mismatch score of the blocks \<open>bs1[i-1]\<close> and \<open>bs2[j-1]\<close>, \<open>dp[i-1][j]\<close> plus the gap
  penalty of \<open>bs1[i-1]\<close>, and \<open>dp[i][j-1]\<close> plus the gap penalty of \<open>bs2[j-1]\<close>. Its
  pointer is 1 (diagonal, with the matched lines of the pair) when the diagonal is not
  beaten by a gap; otherwise it is 3 (the gap that consumes the block of \<open>bs1\<close>) when
  that gap is not beaten by the other one, and 2 otherwise.
\<close>
theorem C5_alignment_recurrence:
  assumes "alignmentMatrix fs bs1 bs2 pvm = Inr dp"
      and "1 \<le> i" "i \<le> length bs1" "1 \<le> j" "j \<le> length bs2"
  shows "\<exists>pairScore matchedPairs.
        MisMatchScore (bs1 ! (i - 1)) (bs2 ! (j - 1)) pvm (GetLineSequence fs)
          (MinimumWeightBipartiteMatching fs) (NumberOfAttributes fs)
          = Inr (pairScore, matchedPairs) \<and>
        (let diag = score (dp ! (i - 1) ! (j - 1)) + pairScore;
             gap1 = score (dp ! (i - 1) ! j) + GapPenalty fs (bs1 ! (i - 1));
             gap2 = score (dp ! i ! (j - 1)) + GapPenalty fs (bs2 ! (j - 1))
         in score (dp ! i ! j) = min diag (min gap1 gap2) \<and>
            pointer (dp ! i ! j)
              = (if diag \<le> gap1 \<and> diag \<le> gap2 then [1] else if gap1 \<le> gap2 then [3] else [2]) \<and>
            (diag \<le> gap1 \<and> diag \<le> gap2 \<longrightarrow> matchedLines (dp ! i ! j) = matchedPairs))"
proof -
  define m where "m = length bs1"
  define n where "n = length bs2"
  define dp0 where
    "dp0 = initRow fs bs2 (initColumn fs bs1 (replicate (m + 1) (replicate (n + 1) matrixCell_init)))"
  define ps where "ps = concat (map (\<lambda>i. map (Pair i) [1..<n + 1]) [1..<m + 1])"
  from assms(1) have
    "rfold (\<lambda>i. rfold (\<lambda>j. fillCell fs bs1 bs2 pvm i j) [1..<n + 1]) [1..<m + 1] dp0 = Inr dp"
    by (simp add: alignmentMatrix_def Let_def m_def n_def dp0_def)
  then have fill: "rfold (\<lambda>(i, j). fillCell fs bs1 bs2 pvm i j) ps dp0 = Inr dp"
    unfolding ps_def by (simp only: rfold_nested)
  have len0: "length dp0 = Suc m"
    by (simp add: dp0_def initRow_shape initColumn_shape)
  have row0: "\<forall>k \<le> m. length (dp0 ! k) = Suc n"
  proof (intro allI impI)
    fix k assume "k \<le> m"
    then have "k < m + 1" by simp
    then have "replicate (m + 1) (replicate (n + 1) matrixCell_init) ! k
                 = replicate (n + 1) matrixCell_init"
      by (rule nth_replicate)
    then have "length (replicate (m + 1) (replicate (n + 1) matrixCell_init) ! k) = Suc n"
      by simp
    then show "length (dp0 ! k) = Suc n"
      by (simp only: dp0_def initRow_shape initColumn_shape)
  qed
  have srt: "sorted_wrt (\<lambda>(i, j) (i', j'). i < i' \<or> i = i' \<and> j < j') ps"
    unfolding ps_def by (rule cells_sorted) (rule sorted_wrt_upt)+
  have pset: "set ps = {1..<m + 1} \<times> {1..<n + 1}"
    unfolding ps_def cells_set set_upt ..
  have rng: "\<forall>(i, j) \<in> set ps. 1 \<le> i \<and> i \<le> m \<and> 1 \<le> j \<and> j \<le> n"
    unfolding pset by auto
  from assms(2-5) have "(i, j) \<in> set ps"
    unfolding pset by (simp add: m_def n_def)
  with fill_cells [OF fill len0 row0 srt rng] have "cellFilled fs bs1 bs2 pvm dp i j"
    by blast
  then show ?thesis unfolding cellFilled_def .
qed

theorem C5_alignment_recurrence_witness:
  "alignmentMatrix (prefixListFunctions pyhash munkres_compute)
      [\<lparr>action = S ''PERMIT'', lines = [pl_line_v4 0 ''0'']\<rparr>]
      [\<lparr>action = S ''DENY'', lines = [pl_line_v4 0 ''0'']\<rparr>] []
     = Inr [[\<lparr>score = 0, pointer = [-1], matchedLines = []\<rparr>,
             \<lparr>score = 14, pointer = [0], matchedLines = []\<rparr>],
            [\<lparr>score = 14, pointer = [0], matchedLines = []\<rparr>,
             \<lparr>score = 28, pointer = [3], matchedLines = []\<rparr>]] \<and>
   (1::nat) \<le> 1 \<and>
   1 \<le> length [\<lparr>action = S ''PERMIT'', lines = [pl_line_v4 0 ''0'']\<rparr>] \<and>
   1 \<le> length [\<lparr>action = S ''DENY'', lines = [pl_line_v4 0 ''0'']\<rparr>] \<and>
   (\<exists>pairScore matchedPairs.
      MisMatchScore ([\<lparr>action = S ''PERMIT'', lines = [pl_line_v4 0 ''0'']\<rparr>] ! (1 - 1))
          ([\<lparr>action = S ''DENY'', lines = [pl_line_v4 0 ''0'']\<rparr>] ! (1 - 1)) []
          (GetLineSequence (prefixListFunctions pyhash munkres_compute))
          (MinimumWeightBipartiteMatching (prefixListFunctions pyhash munkres_compute))
          (NumberOfAttributes (prefixListFunctions pyhash munkres_compute))
        = Inr (pairScore, matchedPairs) \<and>
      pairScore = INFINITY \<and>
      (28::int) = min (0 + pairScore) (min (14 + 14) (14 + 14)) \<and>
      [3::int] = (if 0 + pairScore \<le> 14 + 14 \<and> 0 + pairScore \<le> 14 + (14::int) then [1]
                  else if (14::int) + 14 \<le> 14 + 14 then [3] else [2]))"
proof -
  let ?F = "prefixListFunctions pyhash munkres_compute"
  let ?B1 = "[\<lparr>action = S ''PERMIT'', lines = [pl_line_v4 0 ''0'']\<rparr>]"
  let ?B2 = "[\<lparr>action = S ''DENY'', lines = [pl_line_v4 0 ''0'']\<rparr>]"
  let ?DP = "[[\<lparr>score = 0, pointer = [-1], matchedLines = []\<rparr>,
               \<lparr>score = 14, pointer = [0], matchedLines = []\<rparr>],
              [\<lparr>score = 14, pointer = [0], matchedLines = []\<rparr>,
               \<lparr>score = 28, pointer = [3], matchedLines = []\<rparr>]]"
  have h: "alignmentMatrix ?F ?B1 ?B2 [] = Inr ?DP"
    by code_simp
  have pre: "(1::nat) \<le> 1" "1 \<le> length ?B1" "1 \<le> length ?B2"
    by simp_all
  from C5_alignment_recurrence [OF h pre(1) pre(2) pre(1) pre(3)]
  obtain pairScore matchedPairs where
    mm: "MisMatchScore (?B1 ! (1 - 1)) (?B2 ! (1 - 1)) [] (GetLineSequence ?F)
           (MinimumWeightBipartiteMatching ?F) (NumberOfAttributes ?F) = Inr (pairScore, matchedPairs)" and
    sc: "score (?DP ! 1 ! 1)
           = min (score (?DP ! (1 - 1) ! (1 - 1)) + pairScore)
               (min (score (?DP ! (1 - 1) ! 1) + GapPenalty ?F (?B1 ! (1 - 1)))
                    (score (?DP ! 1 ! (1 - 1)) + GapPenalty ?F (?B2 ! (1 - 1))))" and
    pt: "pointer (?DP ! 1 ! 1)
           = (if score (?DP ! (1 - 1) ! (1 - 1)) + pairScore
                   \<le> score (?DP ! (1 - 1) ! 1) + GapPenalty ?F (?B1 ! (1 - 1)) \<and>
                 score (?DP ! (1 - 1) ! (1 - 1)) + pairScore
                   \<le> score (?DP ! 1 ! (1 - 1)) + GapPenalty ?F (?B2 ! (1 - 1))
              then [1]
              else if score (?DP ! (1 - 1) ! 1) + GapPenalty ?F (?B1 ! (1 - 1))
                        \<le> score (?DP ! 1 ! (1 - 1)) + GapPenalty ?F (?B2 ! (1 - 1))
              then [3] else [2])"
    unfolding Let_def by blast
  have g1: "GapPenalty ?F (?B1 ! (1 - 1)) = 14" by code_simp
  have g2: "GapPenalty ?F (?B2 ! (1 - 1)) = 14" by code_simp
  have mv: "MisMatchScore (?B1 ! (1 - 1)) (?B2 ! (1 - 1)) [] (GetLineSequence ?F)
           (MinimumWeightBipartiteMatching ?F) (NumberOfAttributes ?F) = Inr (INFINITY, [])"
    by (simp add: MisMatchScore_def)
  from mm mv have ps: "pairScore = INFINITY" by simp
  from sc ps have sc': "(28::int) = min (0 + pairScore) (min (14 + 14) (14 + 14))"
    unfolding g1 g2 by (simp add: INFINITY_def)
  from pt ps have pt': "[3::int] = (if 0 + pairScore \<le> 14 + 14 \<and> 0 + pairScore \<le> 14 + (14::int) then [1]
                  else if (14::int) + 14 \<le> 14 + 14 then [3] else [2])"
    unfolding g1 g2 by (simp add: INFINITY_def)
  from h pre mm ps sc' pt' show ?thesis by blast
qed

section \<open>Two one-line ACL blocks of different protocols\<close>

lemma mismatch_matcher:
  assumes p: "map_of l1 (-2) = Some p1" "map_of l2 (-2) = Some p2" "p1 \<noteq> p2"
      and h: "hashf (set (filter (\<lambda>a. fst a \<noteq> LINENUM) l1))
                \<noteq> hashf (set (filter (\<lambda>a. fst a \<noteq> LINENUM) l2))"
      and s: "munkres [[INFINITY]] = [(0, 0)]"
  shows "BipartiteMatching hashf munkres [l1] [l2] pvm ACL_ATTRIBUTES = Inr (ACL_LINE_PENALTY, [])"
proof -
  have hs: "hashShortcut hashf [l1] [l2]
              = ([(hashf (set (filter (\<lambda>a. fst a \<noteq> LINENUM) l1)), [0])], {}, {}, [])"
    using h by (simp add: hashShortcut_def build_ls1HashMap_def hashmap_append_def hashKey_def)
  have u1: "unmatchedLines [l1] {} = [(0, l1)]" and u2: "unmatchedLines [l2] {} = [(0, l2)]"
    by (simp_all add: unmatchedLines_def)
  have ls: "ACL_LineScore l1 l2 pvm = Inr INFINITY"
    using p by (rule ACL_LineScore_protocol_guard)
  have fl: "flavorLineScore ACL_ATTRIBUTES = ACL_LineScore"
    by (simp add: flavorLineScore_def ACL_ATTRIBUTES_def PrefixList_ATTRIBUTES_def)
  have fp: "flavorLinePenalty ACL_ATTRIBUTES = ACL_LINE_PENALTY"
    by (simp add: flavorLinePenalty_def ACL_ATTRIBUTES_def PrefixList_ATTRIBUTES_def)
  have sim: "similarityMatrix ACL_LineScore [l1] [l2] pvm = Inr [[INFINITY]]"
    by (simp add: similarityMatrix_def ls rbind_def)
  have si: "solverIndices munkres [[INFINITY]] = [(0, 0)]"
    by (simp add: solverIndices_def s)
  show ?thesis
    by (simp add: BipartiteMatching_def hs u1 u2 fl fp sim si rbind_def)
qed

lemma upt_0_2: "[0..<Suc (Suc 0)] = [0, Suc 0]"
  by (simp add: upt_rec)

lemma upt_1_2: "[Suc 0..<Suc (Suc 0)] = [Suc 0]"
  by (simp add: upt_rec)

lemma mismatch_matrix:
  assumes p: "map_of l1 (-2) = Some p1" "map_of l2 (-2) = Some p2" "p1 \<noteq> p2"
      and h: "hashf (set (filter (\<lambda>a. fst a \<noteq> LINENUM) l1))
                \<noteq> hashf (set (filter (\<lambda>a. fst a \<noteq> LINENUM) l2))"
      and s: "munkres [[INFINITY]] = [(0, 0)]"
      and b: "lines b1 = [l1]" "lines b2 = [l2]" "action b1 = action b2"
  shows "alignmentMatrix (aclFunctions hashf munkres) [b1] [b2] pvm
           = Inr [[\<lparr>score = 0, pointer = [-1], matchedLines = []\<rparr>,
                   \<lparr>score = 40, pointer = [0], matchedLines = []\<rparr>],
                  [\<lparr>score = 40, pointer = [0], matchedLines = []\<rparr>,
                   \<lparr>score = 40, pointer = [1], matchedLines = []\<rparr>]]"
proof -
  let ?F = "aclFunctions hashf munkres"
  have g: "GapPenalty ?F b1 = 40" "GapPenalty ?F b2 = 40"
    by (simp_all add: aclFunctions_def ACL_GapPenalty_def ACL_LINE_PENALTY_def b)
  have mm: "MisMatchScore b1 b2 pvm (GetLineSequence ?F) (MinimumWeightBipartiteMatching ?F)
              (NumberOfAttributes ?F) = Inr (40, [])"
    using mismatch_matcher [of l1 p1 l2 p2 hashf munkres pvm, OF p h s]
    by (simp add: MisMatchScore_def aclFunctions_def LineSequence_def b ACL_LINE_PENALTY_def)
  have d0: "replicate (length [b1] + 1) (replicate (length [b2] + 1) matrixCell_init)
              = [[matrixCell_init, matrixCell_init], [matrixCell_init, matrixCell_init]]"
    by (simp add: numeral_2_eq_2)
  have c: "initColumn ?F [b1] [[matrixCell_init, matrixCell_init], [matrixCell_init, matrixCell_init]]
             = [[matrixCell_init, matrixCell_init],
                [\<lparr>score = 40, pointer = [0], matchedLines = []\<rparr>, matrixCell_init]]"
    by (simp add: initColumn_def upt_0_2 setCell_def g matrixCell_init_def)
  have r: "initRow ?F [b2] [[matrixCell_init, matrixCell_init],
                [\<lparr>score = 40, pointer = [0], matchedLines = []\<rparr>, matrixCell_init]]
             = [[matrixCell_init, \<lparr>score = 40, pointer = [0], matchedLines = []\<rparr>],
                [\<lparr>score = 40, pointer = [0], matchedLines = []\<rparr>, matrixCell_init]]"
    by (simp add: initRow_def upt_0_2 setCell_def g matrixCell_init_def)
  have f: "fillCell ?F [b1] [b2] pvm (Suc 0) (Suc 0)
             [[matrixCell_init, \<lparr>score = 40, pointer = [0], matchedLines = []\<rparr>],
              [\<lparr>score = 40, pointer = [0], matchedLines = []\<rparr>, matrixCell_init]]
           = Inr [[matrixCell_init, \<lparr>score = 40, pointer = [0], matchedLines = []\<rparr>],
                  [\<lparr>score = 40, pointer = [0], matchedLines = []\<rparr>,
                   \<lparr>score = 40, pointer = [1], matchedLines = []\<rparr>]]"
    by (simp add: fillCell_def mm g rbind_def setCell_def matrixCell_init_def)
  show ?thesis
    unfolding alignmentMatrix_def Let_def d0 c r
    by (simp add: upt_1_2 f [unfolded matrixCell_init_def] rbind_def matrixCell_init_def)
qed

lemma mismatch_alignment:
  assumes p: "map_of l1 (-2) = Some p1" "map_of l2 (-2) = Some p2" "p1 \<noteq> p2"
      and h: "hashf (set (filter (\<lambda>a. fst a \<noteq> LINENUM) l1))
                \<noteq> hashf (set (filter (\<lambda>a. fst a \<noteq> LINENUM) l2))"
      and s: "munkres [[INFINITY]] = [(0, 0)]"
      and b: "lines b1 = [l1]" "lines b2 = [l2]" "action b1 = action b2"
      and segs: "blocks seg1 = [b1]" "blocks seg2 = [b2]"
  shows "AlignSequences seg1 seg2 pl (aclFunctions hashf munkres)
           = Inr ([None, None, Some b1], [None, None, Some b2], [[]])"
proof -
  let ?dp = "[[\<lparr>score = 0, pointer = [-1], matchedLines = []\<rparr>,
               \<lparr>score = 40, pointer = [0], matchedLines = []\<rparr>],
              [\<lparr>score = 40, pointer = [0], matchedLines = []\<rparr>,
               \<lparr>score = 40, pointer = [1], matchedLines = []\<rparr>]]"
  have t0: "traceback ?dp [b1] [b2] 0 0 1 ([Some b1], [Some b2], [[]])
              = Inr (0, 0, 1, [Some b1], [Some b2], [[]])"
    by (subst traceback.simps) simp
  have t: "traceback ?dp [b1] [b2] (Suc 0) (Suc 0) 2 ([], [], [])
              = Inr (0, 0, 1, [Some b1], [Some b2], [[]])"
    by (subst traceback.simps) (simp add: t0)
  have pad: "padAlignment [b] 0 1 [Some b] = [Some b, None, None]" for b :: Block
    by (simp add: padAlignment.simps)
  note mx = mismatch_matrix [of l1 p1 l2 p2 hashf munkres b1 b2 "parameterDistribution pl",
      OF p h s b]
  show ?thesis
    by (simp add: AlignSequences_def segs mx rbind_def t pad)
qed

lemma mismatch_merge:
  assumes b: "lines b1 = [l1]" "lines b2 = [l2]"
      and ln: "map_of l1 LINENUM = Some old"
  shows "TemplateGenerator [None, None, Some b1] [None, None, Some b2] [[]] pl device n
           = Inr ([b1\<lparr>lines := [AList.update LINENUM (N 0) l1, AList.update LINENUM (N 1) l2]\<rparr>],
                  (remapLineNumbers pl [(old, 0)])
                    \<lparr>lineMapping := AList.update device [1]
                                      (lineMapping (remapLineNumbers pl [(old, 0)]))\<rparr>)"
proof -
  have ml: "MergeLines [l1] [l2] 0 pl [] [] [] device n
              = Inr ([AList.update LINENUM (N 0) l1, AList.update LINENUM (N 1) l2], 2, pl,
                     [(old, 0)], [1])"
    by (simp add: MergeLines_def Let_def rbind_def getitem_def ln)
  show ?thesis
    by (simp add: TemplateGenerator_def rbind_def b ml)
qed

text \<open>
  C3 (as amended). Two ACL segments of one block with one line each, with the same action
  and different protocols (key \<open>-2\<close>), whose lines have different hash values: the line
  score of the two lines is \<open>INFINITY\<close>, so the only assignment of the solver is dropped
  and the bipartite matcher returns the score \<open>LINE_PENALTY\<close> of the ACL flavor (40), not
  \<open>INFINITY\<close>, with no matched pair. In the alignment the cell \<open>dp[1][1]\<close> takes the
  diagonal with score 40 (each gap option costs 80), so the two blocks are aligned with
  each other with an empty line matching, and the merger emits one block with the two
  lines as separate lines, numbered 0 (the template line) and 1 (the device line); only
  line 1 belongs to the new device.
\<close>
theorem C3_protocol_mismatch:
  assumes "map_of l1 (-2) = Some p1" "map_of l2 (-2) = Some p2" "p1 \<noteq> p2"
      and "hashf (set (filter (\<lambda>a. fst a \<noteq> LINENUM) l1))
                \<noteq> hashf (set (filter (\<lambda>a. fst a \<noteq> LINENUM) l2))"
      and "munkres [[INFINITY]] = [(0, 0)]"
      and "lines b1 = [l1]" "lines b2 = [l2]" "action b1 = action b2"
      and "blocks seg1 = [b1]" "blocks seg2 = [b2]"
      and "map_of l1 LINENUM = Some old"
  shows "ACL_LineScore l1 l2 pvm = Inr INFINITY \<and>
     BipartiteMatching hashf munkres [l1] [l2] pvm ACL_ATTRIBUTES = Inr (ACL_LINE_PENALTY, []) \<and>
     alignmentMatrix (aclFunctions hashf munkres) [b1] [b2] pvm
       = Inr [[\<lparr>score = 0, pointer = [-1], matchedLines = []\<rparr>,
               \<lparr>score = 40, pointer = [0], matchedLines = []\<rparr>],
              [\<lparr>score = 40, pointer = [0], matchedLines = []\<rparr>,
               \<lparr>score = 40, pointer = [1], matchedLines = []\<rparr>]] \<and>
     AlignSequences seg1 seg2 pl (aclFunctions hashf munkres)
       = Inr ([None, None, Some b1], [None, None, Some b2], [[]]) \<and>
     TemplateGenerator [None, None, Some b1] [None, None, Some b2] [[]] pl device ACL_ATTRIBUTES
       = Inr ([b1\<lparr>lines := [AList.update LINENUM (N 0) l1, AList.update LINENUM (N 1) l2]\<rparr>],
              (remapLineNumbers pl [(old, 0)])
                \<lparr>lineMapping := AList.update device [1]
                                  (lineMapping (remapLineNumbers pl [(old, 0)]))\<rparr>)"
proof -
  note p = assms(1-3) and h = assms(4) and s = assms(5) and b = assms(6-8)
    and segs = assms(9,10) and ln = assms(11)
  have A: "ACL_LineScore l1 l2 pvm = Inr INFINITY"
    using p by (rule ACL_LineScore_protocol_guard)
  note B = mismatch_matcher [of l1 p1 l2 p2 hashf munkres pvm, OF p h s]
  note C = mismatch_matrix [of l1 p1 l2 p2 hashf munkres b1 b2 pvm, OF p h s b]
  note D = mismatch_alignment [of l1 p1 l2 p2 hashf munkres b1 b2 seg1 seg2 pl, OF p h s b segs]
  note E = mismatch_merge [of b1 l1 b2 l2 old pl device ACL_ATTRIBUTES, OF b(1,2) ln]
  from A B C D E show ?thesis by (intro conjI)
qed

theorem C3_protocol_mismatch_witness:
  "map_of (acl_line_any ''TCP'' 0) (-2) = Some (S ''TCP'') \<and>
   map_of (acl_line_any ''UDP'' 0) (-2) = Some (S ''UDP'') \<and> S ''TCP'' \<noteq> S ''UDP'' \<and>
   pyhash (set (filter (\<lambda>a. fst a \<noteq> LINENUM) (acl_line_any ''TCP'' 0)))
     \<noteq> pyhash (set (filter (\<lambda>a. fst a \<noteq> LINENUM) (acl_line_any ''UDP'' 0))) \<and>
   munkres_compute [[INFINITY]] = [(0, 0)] \<and>
   map_of (acl_line_any ''TCP'' 0) LINENUM = Some (N 0) \<and>
   BipartiteMatching pyhash munkres_compute [acl_line_any ''TCP'' 0] [acl_line_any ''UDP'' 0] []
       ACL_ATTRIBUTES = Inr (ACL_LINE_PENALTY, []) \<and>
   AlignSequences
       \<lparr>name = ''acl'', deviceName = ''Template'',
          blocks = [\<lparr>action = S ''PERMIT'', lines = [acl_line_any ''TCP'' 0]\<rparr>],
          configurationFormat = ''CISCO_IOS''\<rparr>
       \<lparr>name = ''acl'', deviceName = ''B'',
          blocks = [\<lparr>action = S ''PERMIT'', lines = [acl_line_any ''UDP'' 0]\<rparr>],
          configurationFormat = ''CISCO_IOS''\<rparr>
       (ParametersLinesMap_init [(''A'', []), (''B'', [])] [(''A'', [0])])
       (aclFunctions pyhash munkres_compute)
     = Inr ([None, None, Some \<lparr>action = S ''PERMIT'', lines = [acl_line_any ''TCP'' 0]\<rparr>],
            [None, None, Some \<lparr>action = S ''PERMIT'', lines = [acl_line_any ''UDP'' 0]\<rparr>], [[]]) \<and>
   TemplateGenerator
       [None, None, Some \<lparr>action = S ''PERMIT'', lines = [acl_line_any ''TCP'' 0]\<rparr>]
       [None, None, Some \<lparr>action = S ''PERMIT'', lines = [acl_line_any ''UDP'' 0]\<rparr>] [[]]
       (ParametersLinesMap_init [(''A'', []), (''B'', [])] [(''A'', [0])]) ''B'' ACL_ATTRIBUTES
     = Inr ([\<lparr>action = S ''PERMIT'',
               lines = [acl_line_any ''TCP'' 0, acl_line_any ''UDP'' 1]\<rparr>],
            \<lparr>counter = 0, parameters = [(''A'', []), (''B'', [])],
               lineMapping = [(''A'', [0]), (''B'', [1])], predicates = None, groupsList = None\<rparr>)"
proof -
  let ?t = "acl_line_any ''TCP'' 0" and ?u = "acl_line_any ''UDP'' 0"
  let ?b1 = "\<lparr>action = S ''PERMIT'', lines = [?t]\<rparr>"
  let ?b2 = "\<lparr>action = S ''PERMIT'', lines = [?u]\<rparr>"
  let ?s1 = "\<lparr>name = ''acl'', deviceName = ''Template'', blocks = [?b1],
               configurationFormat = ''CISCO_IOS''\<rparr>"
  let ?s2 = "\<lparr>name = ''acl'', deviceName = ''B'', blocks = [?b2],
               configurationFormat = ''CISCO_IOS''\<rparr>"
  let ?pl = "ParametersLinesMap_init [(''A'', []), (''B'', [])] [(''A'', [0])]"
  have p: "map_of ?t (-2) = Some (S ''TCP'')" "map_of ?u (-2) = Some (S ''UDP'')"
    "S ''TCP'' \<noteq> S ''UDP''"
    by (simp_all add: acl_line_any_def)
  have h: "pyhash (set (filter (\<lambda>a. fst a \<noteq> LINENUM) ?t))
             \<noteq> pyhash (set (filter (\<lambda>a. fst a \<noteq> LINENUM) ?u))"
    by code_simp
  have s: "munkres_compute [[INFINITY]] = [(0, 0)]" by code_simp
  have b: "lines ?b1 = [?t]" "lines ?b2 = [?u]" "action ?b1 = action ?b2" by simp_all
  have segs: "blocks ?s1 = [?b1]" "blocks ?s2 = [?b2]" by simp_all
  have ln: "map_of ?t LINENUM = Some (N 0)" by (simp add: acl_line_any_def LINENUM_def)
  note t = C3_protocol_mismatch [of ?t "S ''TCP''" ?u "S ''UDP''" pyhash munkres_compute
      ?b1 ?b2 ?s1 ?s2 "N 0" "[]" ?pl "''B''", OF p h s b segs ln]
  have e1: "?b1\<lparr>lines := [AList.update LINENUM (N 0) ?t, AList.update LINENUM (N 1) ?u]\<rparr>
              = \<lparr>action = S ''PERMIT'', lines = [acl_line_any ''TCP'' 0, acl_line_any ''UDP'' 1]\<rparr>"
    by code_simp
  have e2: "(remapLineNumbers ?pl [(N 0, 0)])
                \<lparr>lineMapping := AList.update ''B'' [1]
                                  (lineMapping (remapLineNumbers ?pl [(N 0, 0)]))\<rparr>
              = \<lparr>counter = 0, parameters = [(''A'', []), (''B'', [])],
                 lineMapping = [(''A'', [0]), (''B'', [1])], predicates = None, groupsList = None\<rparr>"
    by code_simp
  from t have B: "BipartiteMatching pyhash munkres_compute [?t] [?u] [] ACL_ATTRIBUTES
                    = Inr (ACL_LINE_PENALTY, [])"
    and D: "AlignSequences ?s1 ?s2 ?pl (aclFunctions pyhash munkres_compute)
              = Inr ([None, None, Some ?b1], [None, None, Some ?b2], [[]])"
    and E: "TemplateGenerator [None, None, Some ?b1] [None, None, Some ?b2] [[]] ?pl ''B''
              ACL_ATTRIBUTES
            = Inr ([?b1\<lparr>lines := [AList.update LINENUM (N 0) ?t, AList.update LINENUM (N 1) ?u]\<rparr>],
                   (remapLineNumbers ?pl [(N 0, 0)])
                     \<lparr>lineMapping := AList.update ''B'' [1]
                                       (lineMapping (remapLineNumbers ?pl [(N 0, 0)]))\<rparr>)"
    by blast+
  from E have E': "TemplateGenerator [None, None, Some ?b1] [None, None, Some ?b2] [[]] ?pl ''B''
              ACL_ATTRIBUTES
            = Inr ([\<lparr>action = S ''PERMIT'',
                      lines = [acl_line_any ''TCP'' 0, acl_line_any ''UDP'' 1]\<rparr>],
                   \<lparr>counter = 0, parameters = [(''A'', []), (''B'', [])],
                      lineMapping = [(''A'', [0]), (''B'', [1])], predicates = None,
                      groupsList = None\<rparr>)"
    unfolding e1 e2 .
  from p h s ln B D E' show ?thesis by (intro conjI)
qed

text \<open>
  C3 as stated fails: for the ACL lines of protocol TCP and UDP the bipartite matcher
  returns the score 40 and not \<open>INFINITY\<close> (10000), and the alignment score \<open>dp[1][1]\<close> is
  40, not \<open>2 * LINE_PENALTY = 80\<close>.
\<close>
theorem C3_matcher_score_counterexample:
  "BipartiteMatching pyhash munkres_compute [acl_line_any ''TCP'' 0] [acl_line_any ''UDP'' 0] []
       ACL_ATTRIBUTES = Inr (40, []) \<and>
   BipartiteMatching pyhash munkres_compute [acl_line_any ''TCP'' 0] [acl_line_any ''UDP'' 0] []
       ACL_ATTRIBUTES \<noteq> Inr (INFINITY, []) \<and>
   alignmentMatrix (aclFunctions pyhash munkres_compute)
       [\<lparr>action = S ''PERMIT'', lines = [acl_line_any ''TCP'' 0]\<rparr>]
       [\<lparr>action = S ''PERMIT'', lines = [acl_line_any ''UDP'' 0]\<rparr>] []
     = Inr [[\<lparr>score = 0, pointer = [-1], matchedLines = []\<rparr>,
             \<lparr>score = 40, pointer = [0], matchedLines = []\<rparr>],
            [\<lparr>score = 40, pointer = [0], matchedLines = []\<rparr>,
             \<lparr>score = 40, pointer = [1], matchedLines = []\<rparr>]] \<and>
   (40 :: int) \<noteq> 2 * ACL_LINE_PENALTY"
  by code_simp

end
